theory Spec2Isabelle
  imports Main
begin

section \<open>Preliminaries\<close>

subsection \<open>Failures\<close>

text \<open>
  Modelled from the spec: the macros \<^verbatim>\<open>iassert\<close> and \<^verbatim>\<open>taco_iassert\<close> (internal
  assertions) and \<^verbatim>\<open>uassert\<close> (user-facing failures), whose definitions are missing from
  the sources.  A failing assertion ends the operation with the text streamed into it and
  yields no result.  Behaviour the C++ standard leaves undefined (signed overflow, a null
  dereference) is a failure of its own, so that no theorem speaks about what happens
  after it.
\<close>

datatype error =
    InternalAssert string
  | UserError string
  | UndefinedBehaviour string

definition bind :: "error + 'a \<Rightarrow> ('a \<Rightarrow> error + 'b) \<Rightarrow> error + 'b" where
  "bind m f = (case m of Inl e \<Rightarrow> Inl e | Inr x \<Rightarrow> f x)"

subsection \<open>Decimal text of an \<^verbatim>\<open>int\<close>\<close>

text \<open>\<^verbatim>\<open>operator<<\<close> of a stream on an \<^verbatim>\<open>int\<close>: the decimal digits, with a leading minus
  sign for a negative value.\<close>

fun show_nat :: "nat \<Rightarrow> string" where
  "show_nat n =
     (if n < 10 then [''0123456789'' ! n]
      else show_nat (n div 10) @ [''0123456789'' ! (n mod 10)])"

definition show_int :: "int \<Rightarrow> string" where
  "show_int i = (if i < 0 then ''-'' @ show_nat (nat (- i)) else show_nat (nat i))"

section \<open>The intermediate representation\<close>

text \<open>
  Modelled from the spec: the declarations of the IR (\<^verbatim>\<open>ir.h\<close>), which are missing from the
  sources; the datatypes hold what the back end reads of a node.  The component types
  are \<^verbatim>\<open>int\<close>, \<^verbatim>\<open>float\<close> and \<^verbatim>\<open>double\<close>, and \<open>TOther\<close> stands for any type \<^verbatim>\<open>to_c_type\<close> does
  not know.  A \<^verbatim>\<open>Var\<close> has a name, a component type and a pointer flag, and is looked up
  by its identity, never by its name.  An expression handle that points to a \<^verbatim>\<open>Var\<close> node
  is \<open>Var a\<close>, with \<open>a\<close> the address of the node; the nodes themselves live in a table from
  addresses to \<open>Var_node\<close>.  Two handles are the same variable exactly when their
  addresses are equal.  Every other expression (literals, arithmetic, loads, calls,
  casts) is an \<open>ExprNode\<close> with a payload and its child expressions; every statement the
  back end does not override (stores, assignments, ...) is a \<open>StmtNode\<close> with a payload
  and its child expressions.  A \<^verbatim>\<open>For\<close> holds its variable, start, end, increment, kind,
  vector width and contents; a \<^verbatim>\<open>While\<close> its condition, kind, vector width and contents; an
  \<^verbatim>\<open>IfThenElse\<close> its condition, its then-branch and an else-branch that may be undefined;
  a \<^verbatim>\<open>Function\<close> its name, inputs, outputs and body.
\<close>

datatype ComponentType = TInt | TFloat | TDouble | TOther

datatype LoopKind = Serial | Parallel | Vectorized | Reduction

record Var_node =
  name :: string
  type :: ComponentType
  is_ptr :: bool

type_synonym var_table = "nat \<Rightarrow> Var_node"

datatype expr =
    Var nat
  | ExprNode string "expr list"

datatype stmt =
    Block "stmt list"
  | For expr expr expr expr LoopKind int stmt
  | While expr LoopKind int stmt
  | IfThenElse expr stmt "stmt option"
  | Function string "expr list" "expr list" stmt
  | StmtNode string "expr list"

text \<open>Modelled from the spec: the structural query \<^verbatim>\<open>as<V>\<close> of the IR handles.
  \<^verbatim>\<open>e.as<Var>()\<close> is the node when the handle points to a \<^verbatim>\<open>Var\<close>, null otherwise; the other
  queries are used as tests only.\<close>

fun as_Var :: "expr \<Rightarrow> nat option" where
  "as_Var (Var a) = Some a"
| "as_Var (ExprNode t es) = None"

fun is_Block :: "stmt \<Rightarrow> bool" where
  "is_Block (Block ss) = True"
| "is_Block s = False"

fun is_For :: "stmt \<Rightarrow> bool" where
  "is_For (For v s e i k w c) = True"
| "is_For s = False"

fun is_While :: "stmt \<Rightarrow> bool" where
  "is_While (While c k w b) = True"
| "is_While s = False"

fun is_IfThenElse :: "stmt \<Rightarrow> bool" where
  "is_IfThenElse (IfThenElse c t e) = True"
| "is_IfThenElse s = False"

section \<open>The C back end\<close>

subsection \<open>The renaming map\<close>

text \<open>
  Modelled from the spec: the order \<^verbatim>\<open>ExprCompare\<close>, which is missing from the sources; it
  orders variables by node identity.  The map \<^verbatim>\<open>map<Expr, string, ExprCompare>\<close> is an
  association list kept in the order of its keys.  Only \<^verbatim>\<open>Var\<close> handles are ever stored,
  so a key is the address of a \<^verbatim>\<open>Var\<close> node.
\<close>

type_synonym var_map = "(nat \<times> string) list"

text \<open>\<^verbatim>\<open>m[k] = v\<close>\<close>

fun map_assign :: "nat \<Rightarrow> string \<Rightarrow> var_map \<Rightarrow> var_map" where
  "map_assign k v [] = [(k, v)]"
| "map_assign k v ((k', v') # m) =
     (if k < k' then (k, v) # (k', v') # m
      else if k = k' then (k, v) # m
      else (k', v') # map_assign k v m)"

text \<open>\<^verbatim>\<open>m.count(k)\<close>\<close>

definition map_count :: "var_map \<Rightarrow> nat \<Rightarrow> nat" where
  "map_count m k = (case map_of m k of None \<Rightarrow> 0 | Some v \<Rightarrow> 1)"

subsection \<open>Unique names\<close>

text \<open>
  \<^verbatim>\<open>CodeGen_C::gen_unique_name\<close> reads and increments the static counter
  \<^verbatim>\<open>unique_name_counter\<close>, an \<^verbatim>\<open>int\<close>; the model passes the counter in and out.
  Incrementing an \<^verbatim>\<open>int\<close> that holds the largest value is undefined behaviour.
\<close>

definition gen_unique_name :: "string \<Rightarrow> int \<Rightarrow> error + (string \<times> int)" where
  "gen_unique_name nm unique_name_counter =
     (if unique_name_counter \<ge> 2147483647
      then Inl (UndefinedBehaviour ''unique_name_counter overflows'')
      else Inr (''_'' @ nm @ ''_'' @ show_int unique_name_counter, unique_name_counter + 1))"

subsection \<open>\<^verbatim>\<open>FindVars\<close>\<close>

text \<open>The constructor's two loops: copy the inputs, then the outputs, into the map.\<close>

fun FindVars_copy :: "var_table \<Rightarrow> string \<Rightarrow> string \<Rightarrow> expr list \<Rightarrow> var_map \<Rightarrow> error + var_map" where
  "FindVars_copy H not_var dup [] var_map = Inr var_map"
| "FindVars_copy H not_var dup (v # vs) var_map =
     (case as_Var v of
        None \<Rightarrow> Inl (InternalAssert not_var)
      | Some var \<Rightarrow>
          if map_count var_map var \<noteq> 0 then Inl (InternalAssert dup)
          else FindVars_copy H not_var dup vs (map_assign var (name (H var)) var_map))"

definition FindVars :: "var_table \<Rightarrow> expr list \<Rightarrow> expr list \<Rightarrow> error + var_map" where
  "FindVars H inputs outputs =
     bind (FindVars_copy H ''Inputs must be vars in codegen''
             ''Duplicate input found in codegen'' inputs [])
       (FindVars_copy H ''Outputs must be vars in codegen''
             ''Duplicate output found in codegen'' outputs)"

text \<open>\<^verbatim>\<open>FindVars::visit(const Var*)\<close>\<close>

definition FindVars_visit_Var :: "var_table \<Rightarrow> nat \<Rightarrow> var_map \<times> int \<Rightarrow> error + (var_map \<times> int)" where
  "FindVars_visit_Var H op = (\<lambda>(var_map, counter).
     if map_count var_map op = 0
     then bind (gen_unique_name (name (H op)) counter)
            (\<lambda>(n, counter'). Inr (map_assign op n var_map, counter'))
     else Inr (var_map, counter))"

text \<open>
  Modelled from the spec: the default visitor \<^verbatim>\<open>IRVisitor\<close>, which is missing from the
  sources and walks every node but a \<^verbatim>\<open>Var\<close>.  The default recursion visits all children
  of a node in source order; the children of a \<^verbatim>\<open>Function\<close> are its inputs, its outputs
  and its body.
\<close>

fun FindVars_visit_expr :: "var_table \<Rightarrow> expr \<Rightarrow> var_map \<times> int \<Rightarrow> error + (var_map \<times> int)"
and FindVars_visit_exprs :: "var_table \<Rightarrow> expr list \<Rightarrow> var_map \<times> int \<Rightarrow> error + (var_map \<times> int)"
where
  "FindVars_visit_expr H (Var a) s = FindVars_visit_Var H a s"
| "FindVars_visit_expr H (ExprNode t es) s = FindVars_visit_exprs H es s"
| "FindVars_visit_exprs H [] s = Inr s"
| "FindVars_visit_exprs H (e # es) s =
     bind (FindVars_visit_expr H e s) (FindVars_visit_exprs H es)"

fun FindVars_visit :: "var_table \<Rightarrow> stmt \<Rightarrow> var_map \<times> int \<Rightarrow> error + (var_map \<times> int)"
and FindVars_visit_stmts :: "var_table \<Rightarrow> stmt list \<Rightarrow> var_map \<times> int \<Rightarrow> error + (var_map \<times> int)"
where
  "FindVars_visit H (Block contents) s = FindVars_visit_stmts H contents s"
| "FindVars_visit H (For var start end' increment kind vec_width contents) s =
     bind (FindVars_visit_exprs H [var, start, end', increment] s) (FindVars_visit H contents)"
| "FindVars_visit H (While cond kind vec_width contents) s =
     bind (FindVars_visit_expr H cond s) (FindVars_visit H contents)"
| "FindVars_visit H (IfThenElse cond then' otherwise) s =
     bind (FindVars_visit_expr H cond s) (\<lambda>s1.
     bind (FindVars_visit H then' s1) (\<lambda>s2.
       case otherwise of None \<Rightarrow> Inr s2 | Some e \<Rightarrow> FindVars_visit H e s2))"
| "FindVars_visit H (Function fname inputs outputs body) s =
     bind (FindVars_visit_exprs H (inputs @ outputs) s) (FindVars_visit H body)"
| "FindVars_visit H (StmtNode t es) s = FindVars_visit_exprs H es s"
| "FindVars_visit_stmts H [] s = Inr s"
| "FindVars_visit_stmts H (x # xs) s =
     bind (FindVars_visit H x s) (FindVars_visit_stmts H xs)"

subsection \<open>Helpers\<close>

definition to_c_type :: "ComponentType \<Rightarrow> bool \<Rightarrow> error + string" where
  "to_c_type typ is_ptr' =
     bind (case typ of
             TInt \<Rightarrow> Inr ''int''
           | TFloat \<Rightarrow> Inr ''float''
           | TDouble \<Rightarrow> Inr ''double''
           | TOther \<Rightarrow> Inl (InternalAssert ''Unknown type in codegen''))
       (\<lambda>ret. Inr (if is_ptr' then ret @ ''*'' else ret))"

fun print_decls :: "var_table \<Rightarrow> var_map \<Rightarrow> expr list \<Rightarrow> expr list \<Rightarrow> error + string" where
  "print_decls H [] inputs outputs = Inr ''''"
| "print_decls H ((var, emitted) # var_map) inputs outputs =
     (if Var var \<notin> set inputs \<and> Var var \<notin> set outputs
      then bind (to_c_type (type (H var)) (is_ptr (H var))) (\<lambda>ty.
           bind (print_decls H var_map inputs outputs) (\<lambda>rest.
             Inr (''  '' @ ty @ '' '' @ emitted @ '';\<newline>'' @ rest)))
      else print_decls H var_map inputs outputs)"

definition gen_vectorize_pragma :: "int \<Rightarrow> string" where
  "gen_vectorize_pragma width =
     ''#pragma clang loop interleave(enable) '' @
     (if width = 0 then ''vectorize(enable)''
      else ''vectorize_width('' @ show_int width @ '')'')"

subsection \<open>The printer\<close>

text \<open>
  Modelled from the spec: the base class \<^verbatim>\<open>IRPrinter\<close> of \<^verbatim>\<open>CodeGen_C\<close>, which is missing from
  the sources.  The base class is a parameter of the model: for a node that \<^verbatim>\<open>CodeGen_C\<close>
  does not override it gives the text the base printer produces from the payload of the
  node, the current indentation and the texts of the node's children, which it visits
  in source order at the current indentation.
\<close>

record IRPrinter =
  expr_text :: "string \<Rightarrow> string list \<Rightarrow> string"
  stmt_text :: "string \<Rightarrow> int \<Rightarrow> string list \<Rightarrow> string"
  ite_text :: "int \<Rightarrow> string \<Rightarrow> string \<Rightarrow> string option \<Rightarrow> string"

text \<open>Modelled from the spec: \<^verbatim>\<open>IRPrinter::do_indent\<close>, which is missing from the sources;
  it writes two spaces per level of the shared indent counter.\<close>

definition do_indent :: "int \<Rightarrow> string" where
  "do_indent indent' = concat (replicate (nat indent') ''  '')"

text \<open>
  The members of \<^verbatim>\<open>CodeGen_C\<close>, and the static counter.  The output stream is only ever
  appended to: each visit returns the text it wrote, together with the members as it
  left them.
\<close>

record CodeGen_C =
  indent :: int
  func_block :: bool
  func_decls :: string
  var_map :: var_map
  unique_name_counter :: int

text \<open>A fresh printer: \<^verbatim>\<open>func_block(true)\<close>, the static counter initialised to 0.\<close>

definition CodeGen_C_new :: CodeGen_C where
  "CodeGen_C_new =
     \<lparr>indent = 0, func_block = True, func_decls = [], var_map = [],
      unique_name_counter = 0\<rparr>"

text \<open>\<^verbatim>\<open>CodeGen_C::visit(const Var*)\<close>, and the base printer on the other expressions.\<close>

fun visit_expr :: "IRPrinter \<Rightarrow> var_table \<Rightarrow> var_map \<Rightarrow> expr \<Rightarrow> error + string"
and visit_exprs :: "IRPrinter \<Rightarrow> var_table \<Rightarrow> var_map \<Rightarrow> expr list \<Rightarrow> error + string list"
where
  "visit_expr P H vm (Var op) =
     (case map_of vm op of
        None \<Rightarrow> Inl (InternalAssert (''Var '' @ name (H op) @ '' not found in var_map''))
      | Some emitted \<Rightarrow> Inr emitted)"
| "visit_expr P H vm (ExprNode t es) =
     bind (visit_exprs P H vm es) (\<lambda>texts. Inr (expr_text P t texts))"
| "visit_exprs P H vm [] = Inr []"
| "visit_exprs P H vm (e # es) =
     bind (visit_expr P H vm e) (\<lambda>x.
     bind (visit_exprs P H vm es) (\<lambda>xs. Inr (x # xs)))"

text \<open>The parameter list of the emitted function: the two loops of
  \<^verbatim>\<open>CodeGen_C::visit(const Function*)\<close>.\<close>

fun print_inputs :: "var_table \<Rightarrow> expr list \<Rightarrow> error + string" where
  "print_inputs H [] = Inr []"
| "print_inputs H (i # rest) =
     (case as_Var i of
        None \<Rightarrow> Inl (InternalAssert ''inputs must be vars in codegen'')
      | Some var \<Rightarrow>
          bind (to_c_type (type (H var)) (is_ptr (H var))) (\<lambda>ty.
          bind (print_inputs H rest) (\<lambda>more.
            Inr (ty @ '' '' @ name (H var) @ (if rest \<noteq> [] then '', '' else []) @ more))))"

fun print_outputs :: "var_table \<Rightarrow> expr list \<Rightarrow> error + string" where
  "print_outputs H [] = Inr []"
| "print_outputs H (output # rest) =
     (case as_Var output of
        None \<Rightarrow> Inl (InternalAssert ''outputs must be vars in codegen'')
      | Some var \<Rightarrow>
          bind (to_c_type (type (H var)) (is_ptr (H var))) (\<lambda>ty.
          bind (print_outputs H rest) (\<lambda>more.
            Inr ('', '' @ ty @ '' '' @ name (H var) @ more))))"

text \<open>The pragma of a vectorized loop, and the headers of \<^verbatim>\<open>For\<close> and \<^verbatim>\<open>While\<close>.\<close>

definition loop_pragma :: "int \<Rightarrow> LoopKind \<Rightarrow> int \<Rightarrow> string" where
  "loop_pragma indent' kind vec_width =
     (if kind = Vectorized
      then do_indent indent' @ gen_vectorize_pragma vec_width @ ''\<newline>''
      else [])"

definition for_header ::
  "IRPrinter \<Rightarrow> var_table \<Rightarrow> var_map \<Rightarrow> int \<Rightarrow> expr \<Rightarrow> expr \<Rightarrow> expr \<Rightarrow> expr \<Rightarrow> error + string" where
  "for_header P H vm indent' var start end' increment =
     bind (visit_expr P H vm var) (\<lambda>v1.
     bind (visit_expr P H vm start) (\<lambda>s.
     bind (visit_expr P H vm var) (\<lambda>v2.
     bind (visit_expr P H vm end') (\<lambda>e.
     bind (visit_expr P H vm var) (\<lambda>v3.
     bind (visit_expr P H vm increment) (\<lambda>i.
       Inr (do_indent indent' @ ''for ('' @ v1 @ ''='' @ s @ ''; '' @ v2 @ ''<'' @ e @ ''; ''
            @ v3 @ ''+='' @ i @ '')\<newline>'' @ do_indent indent' @ ''{\<newline>'')))))))"

definition while_header :: "IRPrinter \<Rightarrow> var_table \<Rightarrow> var_map \<Rightarrow> int \<Rightarrow> expr \<Rightarrow> error + string" where
  "while_header P H vm indent' cond =
     bind (visit_expr P H vm cond) (\<lambda>c.
       Inr (do_indent indent' @ ''while ('' @ c @ '')\<newline>'' @ do_indent indent' @ ''{\<newline>''))"

text \<open>
  The statement visitor.  \<open>visit_contents\<close> is the loop of \<^verbatim>\<open>CodeGen_C::visit(const Block*)\<close>
  over the statements of the block.  \<open>loop_body\<close> is the common tail of the \<^verbatim>\<open>For\<close> and
  \<^verbatim>\<open>While\<close> visitors: the contents, indented by the loop itself unless they are a
  \<^verbatim>\<open>Block\<close>, and the closing brace.
\<close>

fun visit :: "IRPrinter \<Rightarrow> var_table \<Rightarrow> stmt \<Rightarrow> CodeGen_C \<Rightarrow> error + (string \<times> CodeGen_C)"
and visit_contents :: "IRPrinter \<Rightarrow> var_table \<Rightarrow> stmt list \<Rightarrow> CodeGen_C \<Rightarrow> error + (string \<times> CodeGen_C)"
and loop_body :: "IRPrinter \<Rightarrow> var_table \<Rightarrow> stmt \<Rightarrow> CodeGen_C \<Rightarrow> error + (string \<times> CodeGen_C)"
where
  "visit P H (Function fname inputs outputs body) st =
     bind (FindVars H inputs outputs) (\<lambda>vm0.
     bind (FindVars_visit H body (vm0, unique_name_counter st)) (\<lambda>(vm, counter).
     bind (print_decls H vm inputs outputs) (\<lambda>decls.
     bind (print_inputs H inputs) (\<lambda>ins.
     bind (print_outputs H outputs) (\<lambda>outs.
     bind (visit P H body
             (st\<lparr>var_map := vm, unique_name_counter := counter, func_decls := decls\<rparr>))
       (\<lambda>(body_text, st').
         Inr (''int '' @ fname @ ''('' @ ins @ outs @ '') '' @ do_indent (indent st) @ ''{\<newline>''
              @ body_text @ do_indent (indent st') @ ''}\<newline>'',
              st'\<lparr>func_block := True, func_decls := []\<rparr>)))))))"
| "visit P H (For var start end' increment kind vec_width contents) st =
     bind (for_header P H (var_map st) (indent st) var start end' increment) (\<lambda>header.
     bind (loop_body P H contents st) (\<lambda>(rest, st').
       Inr (loop_pragma (indent st) kind vec_width @ header @ rest, st')))"
| "visit P H (While cond kind vec_width contents) st =
     bind (while_header P H (var_map st) (indent st) cond) (\<lambda>header.
     bind (loop_body P H contents st) (\<lambda>(rest, st').
       Inr (loop_pragma (indent st) kind vec_width @ header @ rest, st')))"
| "visit P H (Block contents) st =
     (let output_return = func_block st;
          st1 = st\<lparr>func_block := False, indent := indent st + 1\<rparr>
      in bind (visit_contents P H contents st1) (\<lambda>(body_text, st2).
           Inr ((if output_return then func_decls st1 else []) @ body_text @
                (if output_return then do_indent (indent st2) @ ''return 0;\<newline>'' else []),
                st2\<lparr>indent := indent st2 - 1\<rparr>)))"
| "visit P H (IfThenElse cond then' otherwise) st =
     bind (visit_expr P H (var_map st) cond) (\<lambda>c.
     bind (visit P H then' st) (\<lambda>(t, st1).
       case otherwise of
         None \<Rightarrow> Inr (ite_text P (indent st) c t None, st1)
       | Some else' \<Rightarrow>
           bind (visit P H else' st1) (\<lambda>(e, st2).
             Inr (ite_text P (indent st) c t (Some e), st2))))"
| "visit P H (StmtNode t es) st =
     bind (visit_exprs P H (var_map st) es) (\<lambda>texts.
       Inr (stmt_text P t (indent st) texts, st))"
| "visit_contents P H [] st = Inr ([], st)"
| "visit_contents P H (s # rest) st =
     bind (visit P H s st) (\<lambda>(t, st1).
     bind (visit_contents P H rest st1) (\<lambda>(more, st2).
       Inr (t @ (if \<not> is_IfThenElse s \<and> \<not> is_For s \<and> \<not> is_While s then ''\<newline>'' else [])
            @ more, st2)))"
| "loop_body P H contents st =
     (if \<not> is_Block contents
      then bind (visit P H contents (st\<lparr>indent := indent st + 1\<rparr>)) (\<lambda>(c, st1).
             Inr (do_indent (indent st + 1) @ c @ do_indent (indent st1 - 1) @ ''}\<newline>'',
                  st1\<lparr>indent := indent st1 - 1\<rparr>))
      else bind (visit P H contents st) (\<lambda>(c, st1).
             Inr (c @ do_indent (indent st1) @ ''}\<newline>'', st1)))"

text \<open>\<^verbatim>\<open>CodeGen_C::compile\<close>\<close>

definition compile :: "IRPrinter \<Rightarrow> var_table \<Rightarrow> stmt \<Rightarrow> CodeGen_C \<Rightarrow> error + (string \<times> CodeGen_C)" where
  "compile P H stmt' st = visit P H stmt' st"

subsection \<open>Notions used to state the properties of the back end\<close>

text \<open>The \<^verbatim>\<open>Var\<close> nodes reachable in an expression or a statement, in the order of the walk.\<close>

fun vars_expr :: "expr \<Rightarrow> nat list"
and vars_exprs :: "expr list \<Rightarrow> nat list" where
  "vars_expr (Var a) = [a]"
| "vars_expr (ExprNode t es) = vars_exprs es"
| "vars_exprs [] = []"
| "vars_exprs (e # es) = vars_expr e @ vars_exprs es"

fun vars_stmt :: "stmt \<Rightarrow> nat list"
and vars_stmts :: "stmt list \<Rightarrow> nat list" where
  "vars_stmt (Block contents) = vars_stmts contents"
| "vars_stmt (For var start end' increment kind vec_width contents) =
     vars_exprs [var, start, end', increment] @ vars_stmt contents"
| "vars_stmt (While cond kind vec_width contents) = vars_expr cond @ vars_stmt contents"
| "vars_stmt (IfThenElse cond then' otherwise) =
     vars_expr cond @ vars_stmt then' @
     (case otherwise of None \<Rightarrow> [] | Some e \<Rightarrow> vars_stmt e)"
| "vars_stmt (Function fname inputs outputs body) =
     vars_exprs (inputs @ outputs) @ vars_stmt body"
| "vars_stmt (StmtNode t es) = vars_exprs es"
| "vars_stmts [] = []"
| "vars_stmts (x # xs) = vars_stmt x @ vars_stmts xs"

text \<open>The walk of \<^verbatim>\<open>FindVars\<close> over a list of \<^verbatim>\<open>Var\<close> nodes, one after the other.\<close>

fun FindVars_visit_Vars :: "var_table \<Rightarrow> nat list \<Rightarrow> var_map \<times> int \<Rightarrow> error + (var_map \<times> int)" where
  "FindVars_visit_Vars H [] s = Inr s"
| "FindVars_visit_Vars H (a # as) s =
     bind (FindVars_visit_Var H a s) (FindVars_visit_Vars H as)"

text \<open>A statement that holds no \<^verbatim>\<open>Function\<close> node: C has no nested functions, and a
  \<^verbatim>\<open>Function\<close> met while another is printed replaces the renaming map and the declarations
  of the outer one.\<close>

fun no_Function :: "stmt \<Rightarrow> bool"
and no_Functions :: "stmt list \<Rightarrow> bool" where
  "no_Function (Block contents) = no_Functions contents"
| "no_Function (For var start end' increment kind vec_width contents) = no_Function contents"
| "no_Function (While cond kind vec_width contents) = no_Function contents"
| "no_Function (IfThenElse cond then' otherwise) =
     (no_Function then' \<and> (case otherwise of None \<Rightarrow> True | Some e \<Rightarrow> no_Function e))"
| "no_Function (Function fname inputs outputs body) = False"
| "no_Function (StmtNode t es) = True"
| "no_Functions [] = True"
| "no_Functions (x # xs) = (no_Function x \<and> no_Functions xs)"

text \<open>
  The text of a statement nested in a function body, as the spec words it: a block prints
  its statements one level deeper and nothing else; it neither prints the declarations
  nor the return statement.  This printer has no members but the indentation; it is the
  reference the visitor is compared with, and it says nothing of a \<^verbatim>\<open>Function\<close> node.
\<close>

fun print_nested :: "IRPrinter \<Rightarrow> var_table \<Rightarrow> var_map \<Rightarrow> int \<Rightarrow> stmt \<Rightarrow> error + string"
and print_nested_contents :: "IRPrinter \<Rightarrow> var_table \<Rightarrow> var_map \<Rightarrow> int \<Rightarrow> stmt list \<Rightarrow> error + string"
where
  "print_nested P H vm n (Block contents) = print_nested_contents P H vm (n + 1) contents"
| "print_nested P H vm n (For var start end' increment kind vec_width contents) =
     bind (for_header P H vm n var start end' increment) (\<lambda>header.
     bind (print_nested P H vm (if is_Block contents then n else n + 1) contents) (\<lambda>c.
       Inr (loop_pragma n kind vec_width @ header @
            (if is_Block contents then [] else do_indent (n + 1)) @ c @
            do_indent n @ ''}\<newline>'')))"
| "print_nested P H vm n (While cond kind vec_width contents) =
     bind (while_header P H vm n cond) (\<lambda>header.
     bind (print_nested P H vm (if is_Block contents then n else n + 1) contents) (\<lambda>c.
       Inr (loop_pragma n kind vec_width @ header @
            (if is_Block contents then [] else do_indent (n + 1)) @ c @
            do_indent n @ ''}\<newline>'')))"
| "print_nested P H vm n (IfThenElse cond then' otherwise) =
     bind (visit_expr P H vm cond) (\<lambda>c.
     bind (print_nested P H vm n then') (\<lambda>t.
       case otherwise of
         None \<Rightarrow> Inr (ite_text P n c t None)
       | Some else' \<Rightarrow>
           bind (print_nested P H vm n else') (\<lambda>e. Inr (ite_text P n c t (Some e)))))"
| "print_nested P H vm n (StmtNode t es) =
     bind (visit_exprs P H vm es) (\<lambda>texts. Inr (stmt_text P t n texts))"
| "print_nested P H vm n (Function fname inputs outputs body) =
     Inl (InternalAssert ''a Function is not a nested statement'')"
| "print_nested_contents P H vm n [] = Inr []"
| "print_nested_contents P H vm n (s # rest) =
     bind (print_nested P H vm n s) (\<lambda>t.
     bind (print_nested_contents P H vm n rest) (\<lambda>more.
       Inr (t @ (if \<not> is_IfThenElse s \<and> \<not> is_For s \<and> \<not> is_While s then ''\<newline>'' else [])
            @ more)))"

text \<open>One declaration line, and the entries of the renaming map that are declared: those
  that are neither an input nor an output.\<close>

definition decl_line :: "var_table \<Rightarrow> nat \<times> string \<Rightarrow> string" where
  "decl_line H = (\<lambda>(var, emitted).
     ''  '' @ (case to_c_type (type (H var)) (is_ptr (H var)) of Inl e \<Rightarrow> [] | Inr ty \<Rightarrow> ty)
     @ '' '' @ emitted @ '';\<newline>'')"

definition declared :: "var_map \<Rightarrow> expr list \<Rightarrow> expr list \<Rightarrow> var_map" where
  "declared vm inputs outputs =
     filter (\<lambda>(var, emitted). Var var \<notin> set inputs \<and> Var var \<notin> set outputs) vm"

text \<open>One parameter of the emitted signature, the C type and the source name of the
  variable; and a list of texts with a comma and a blank between one and the next.\<close>

definition param :: "var_table \<Rightarrow> nat \<Rightarrow> string" where
  "param H var =
     (case to_c_type (type (H var)) (is_ptr (H var)) of Inl e \<Rightarrow> [] | Inr ty \<Rightarrow> ty)
     @ '' '' @ name (H var)"

fun comma_separated :: "string list \<Rightarrow> string" where
  "comma_separated [] = []"
| "comma_separated [x] = x"
| "comma_separated (x # y # ys) = x @ '', '' @ comma_separated (y # ys)"

section \<open>The JIT module\<close>

text \<open>
  The module talks to the operating system: it reads \<^verbatim>\<open>TMPDIR\<close>, draws random numbers,
  writes a file, runs a shell command and calls the dynamic loader.  The model records
  the calls a method makes, in order, and takes the answers of the operating system as a
  parameter.  A pointer is a natural number, \<open>0\<close> the null pointer.
\<close>

datatype os_call =
    Write_file string string
  | System string
  | Dlopen string
  | Dlsym nat string

record os =
  system_status :: "string \<Rightarrow> int"
  dlopen_handle :: "string \<Rightarrow> nat"
  dlsym_address :: "nat \<Rightarrow> string \<Rightarrow> nat"

record Module =
  source :: string
  tmpdir :: string
  libname :: string
  lib_handle :: nat

definition chars :: string where
  "chars = ''abcdefghijkmnpqrstuvwxyz0123456789''"

text \<open>\<^verbatim>\<open>Module::set_libname\<close>; \<open>rand i\<close> is what the \<open>i\<close>-th call of \<^verbatim>\<open>rand()\<close> returns, a
  value between 0 and \<^verbatim>\<open>RAND_MAX\<close>.\<close>

definition set_libname :: "(nat \<Rightarrow> nat) \<Rightarrow> Module \<Rightarrow> Module" where
  "set_libname rand m =
     m\<lparr>libname := map (\<lambda>i. chars ! (rand i mod length chars)) [0..<12]\<rparr>"

text \<open>The constructor; \<open>tmp\<close> is the result of \<^verbatim>\<open>getenv("TMPDIR")\<close>.  The constructor does not
  initialise \<^verbatim>\<open>lib_handle\<close>: \<open>h\<close> is whatever the member holds.\<close>

definition Module_new :: "string \<Rightarrow> string option \<Rightarrow> (nat \<Rightarrow> nat) \<Rightarrow> nat \<Rightarrow> Module" where
  "Module_new src tmp rand h =
     set_libname rand
       \<lparr>source = ''#include <stdio.h>\<newline>'' @ src,
        tmpdir = (case tmp of None \<Rightarrow> ''/tmp/'' | Some t \<Rightarrow> t),
        libname = [],
        lib_handle = h\<rparr>"

text \<open>\<^verbatim>\<open>Module::compile\<close>: the calls made, and the result.\<close>

definition Module_compile :: "os \<Rightarrow> Module \<Rightarrow> os_call list \<times> (error + (string \<times> Module))" where
  "Module_compile sys m =
     (let prefix = tmpdir m @ libname m;
          fullpath = prefix @ ''.so'';
          cmd = ''cc -std=c99 -shared '' @ prefix @ ''.c '' @ ''-o '' @ prefix @ ''.so'';
          err = system_status sys cmd
      in if err \<noteq> 0
         then ([Write_file (prefix @ ''.c'') (source m), System cmd],
               Inl (UserError (''Compilation command failed:\<newline>'' @ cmd @
                               ''\<newline>returned '' @ show_int err)))
         else ([Write_file (prefix @ ''.c'') (source m), System cmd, Dlopen fullpath],
               Inr (fullpath, m\<lparr>lib_handle := dlopen_handle sys fullpath\<rparr>)))"

text \<open>\<^verbatim>\<open>Module::get_func\<close>\<close>

definition get_func :: "os \<Rightarrow> Module \<Rightarrow> string \<Rightarrow> os_call list \<times> (error + nat)" where
  "get_func sys m nm =
     (let ret = dlsym_address sys (lib_handle m) nm
      in ([Dlsym (lib_handle m) nm],
          if ret \<noteq> 0 then Inr ret
          else Inl (UserError (''Function '' @ nm @ '' not found in module '' @
                               tmpdir m @ libname m))))"

section \<open>Modes, mode packs and mode types\<close>

text \<open>
  Modelled from the spec: the declarations of \<^verbatim>\<open>mode_type.h\<close> and of the utilities, which
  are missing from the sources.  \<^verbatim>\<open>Expr\<close> and \<^verbatim>\<open>Stmt\<close> are handles to IR nodes; a
  default-constructed handle is undefined.  A \<^verbatim>\<open>ModeTypeImpl\<close> is a name and ten capability
  flags, a \<^verbatim>\<open>ModeType\<close> is a value handle to a \<^verbatim>\<open>ModeTypeImpl\<close>, a \<^verbatim>\<open>Dimension\<close> is an abstract
  extent (here a fixed size, or none for a variable one), \<^verbatim>\<open>isa<Var>\<close> tells whether a handle
  is defined and points to a \<^verbatim>\<open>Var\<close>, and \<^verbatim>\<open>util::contains\<close> tells whether a key is in a
  map.
\<close>

type_synonym Expr = "expr option"

type_synonym Stmt = "stmt option"

definition isa_Var :: "Expr \<Rightarrow> bool" where
  "isa_Var e = (case e of Some (Var a) \<Rightarrow> True | _ \<Rightarrow> False)"

record ModeTypeImpl =
  mode_type_name :: string
  isFull :: bool
  isOrdered :: bool
  isUnique :: bool
  isBranchless :: bool
  isCompact :: bool
  hasCoordValIter :: bool
  hasCoordPosIter :: bool
  hasLocate :: bool
  hasInsert :: bool
  hasAppend :: bool

type_synonym ModeType = "ModeTypeImpl option"

type_synonym Dimension = "nat option"

text \<open>\<^verbatim>\<open>Mode::Content\<close>.  \<open>pack\<close> is a pointer to a \<^verbatim>\<open>ModePack\<close>: the address of the pack, or
  null.\<close>

record Content =
  tensor :: Expr
  mode_size :: Dimension
  level :: nat
  modeType :: ModeType
  pack :: "nat option"
  packLoc :: nat
  parentModeType :: ModeType
  vars :: "string \<rightharpoonup> Expr"

text \<open>
  Modelled from the spec: the member \<^verbatim>\<open>content\<close> of \<^verbatim>\<open>Mode\<close>, declared in the missing header.
  A \<^verbatim>\<open>Mode\<close> is a pointer to its content, shared by all copies of the mode; the contents
  live in a store.  \<open>None\<close> is the null pointer of a default-constructed mode.
\<close>

type_synonym Mode = "nat option"

type_synonym store = "nat \<rightharpoonup> Content"

text \<open>\<^verbatim>\<open>mode.content->\<close>: following a null pointer is undefined behaviour.\<close>

definition content_of :: "Mode \<Rightarrow> store \<Rightarrow> error + Content" where
  "content_of mode \<sigma> =
     (case mode of
        None \<Rightarrow> Inl (UndefinedBehaviour ''null content'')
      | Some a \<Rightarrow>
          (case \<sigma> a of
             None \<Rightarrow> Inl (UndefinedBehaviour ''no content at this address'')
           | Some c \<Rightarrow> Inr c))"

text \<open>\<^verbatim>\<open>mode.content->field = ...\<close>\<close>

definition update_content :: "Mode \<Rightarrow> (Content \<Rightarrow> Content) \<Rightarrow> store \<Rightarrow> error + store" where
  "update_content mode f \<sigma> =
     (case mode of
        None \<Rightarrow> Inl (UndefinedBehaviour ''null content'')
      | Some a \<Rightarrow>
          (case \<sigma> a of
             None \<Rightarrow> Inl (UndefinedBehaviour ''no content at this address'')
           | Some c \<Rightarrow> Inr (\<sigma>(a \<mapsto> f c))))"

text \<open>The two constructors; \<open>a\<close> is the address \<^verbatim>\<open>new Content\<close> returns.\<close>

definition Mode_default :: Mode where
  "Mode_default = None"

definition Mode_new ::
  "nat \<Rightarrow> Expr \<Rightarrow> Dimension \<Rightarrow> nat \<Rightarrow> ModeType \<Rightarrow> nat option \<Rightarrow> nat \<Rightarrow> ModeType \<Rightarrow> store \<Rightarrow> Mode \<times> store" where
  "Mode_new a tensor' size' level' modeType' pack' packLoc' parentModeType' \<sigma> =
     (Some a,
      \<sigma>(a \<mapsto> \<lparr>tensor = tensor', mode_size = size', level = level', modeType = modeType',
               pack = pack', packLoc = packLoc', parentModeType = parentModeType',
               vars = Map.empty\<rparr>))"

definition getPack :: "Mode \<Rightarrow> store \<Rightarrow> error + nat option" where
  "getPack mode \<sigma> = bind (content_of mode \<sigma>) (\<lambda>c. Inr (pack c))"

definition getPackLocation :: "Mode \<Rightarrow> store \<Rightarrow> error + nat" where
  "getPackLocation mode \<sigma> = bind (content_of mode \<sigma>) (\<lambda>c. Inr (packLoc c))"

definition hasVar :: "Mode \<Rightarrow> string \<Rightarrow> store \<Rightarrow> error + bool" where
  "hasVar mode varName \<sigma> = bind (content_of mode \<sigma>) (\<lambda>c. Inr (vars c varName \<noteq> None))"

definition getVar :: "Mode \<Rightarrow> string \<Rightarrow> store \<Rightarrow> error + Expr" where
  "getVar mode varName \<sigma> =
     bind (hasVar mode varName \<sigma>) (\<lambda>has.
       if \<not> has then Inl (InternalAssert [])
       else bind (content_of mode \<sigma>) (\<lambda>c.
              case vars c varName of
                None \<Rightarrow> Inl (UserError ''out_of_range'')
              | Some e \<Rightarrow> Inr e))"

definition addVar :: "Mode \<Rightarrow> string \<Rightarrow> Expr \<Rightarrow> store \<Rightarrow> error + store" where
  "addVar mode varName var \<sigma> =
     (if \<not> isa_Var var then Inl (InternalAssert [])
      else update_content mode (\<lambda>c. c\<lparr>vars := (vars c)(varName \<mapsto> var)\<rparr>) \<sigma>)"

definition defined :: "Mode \<Rightarrow> bool" where
  "defined mode = (mode \<noteq> None)"

text \<open>A sequence of calls of \<^verbatim>\<open>addVar\<close> on one mode.\<close>

fun addVars :: "Mode \<Rightarrow> (string \<times> Expr) list \<Rightarrow> store \<Rightarrow> error + store" where
  "addVars mode [] \<sigma> = Inr \<sigma>"
| "addVars mode ((varName, var) # rest) \<sigma> =
     bind (addVar mode varName var \<sigma>) (addVars mode rest)"

text \<open>\<^verbatim>\<open>ModePack\<close>.  \<open>this\<close> is the address of the pack under construction.\<close>

record ModePack =
  modes :: "Mode list"

fun set_packs :: "nat \<Rightarrow> Mode list \<Rightarrow> store \<Rightarrow> error + store" where
  "set_packs this [] \<sigma> = Inr \<sigma>"
| "set_packs this (mode # rest) \<sigma> =
     bind (update_content mode (\<lambda>c. c\<lparr>pack := Some this\<rparr>) \<sigma>) (set_packs this rest)"

definition ModePack_new :: "nat \<Rightarrow> Mode list \<Rightarrow> store \<Rightarrow> error + (ModePack \<times> store)" where
  "ModePack_new this modes' \<sigma> =
     bind (set_packs this modes' \<sigma>) (\<lambda>\<sigma>'. Inr (\<lparr>modes = modes'\<rparr>, \<sigma>'))"

definition getSize :: "ModePack \<Rightarrow> nat" where
  "getSize p = length (modes p)"

text \<open>The operations of \<^verbatim>\<open>ModeTypeImpl\<close>, as the class itself implements them.\<close>

definition ModeTypeImpl_new ::
  "string \<Rightarrow> bool \<Rightarrow> bool \<Rightarrow> bool \<Rightarrow> bool \<Rightarrow> bool \<Rightarrow> bool \<Rightarrow> bool \<Rightarrow> bool \<Rightarrow> bool \<Rightarrow> bool \<Rightarrow> ModeTypeImpl" where
  "ModeTypeImpl_new nm isFull' isOrdered' isUnique' isBranchless' isCompact'
       hasCoordValIter' hasCoordPosIter' hasLocate' hasInsert' hasAppend' =
     \<lparr>mode_type_name = nm, isFull = isFull', isOrdered = isOrdered', isUnique = isUnique',
      isBranchless = isBranchless', isCompact = isCompact',
      hasCoordValIter = hasCoordValIter', hasCoordPosIter = hasCoordPosIter',
      hasLocate = hasLocate', hasInsert = hasInsert', hasAppend = hasAppend'\<rparr>"

definition getCoordIter :: "ModeTypeImpl \<Rightarrow> Expr list \<Rightarrow> Mode \<Rightarrow> Stmt \<times> Expr \<times> Expr" where
  "getCoordIter impl i mode = (None, None, None)"

definition getCoordAccess :: "ModeTypeImpl \<Rightarrow> Expr \<Rightarrow> Expr list \<Rightarrow> Mode \<Rightarrow> Stmt \<times> Expr \<times> Expr" where
  "getCoordAccess impl pPrev i mode = (None, None, None)"

definition getPosIter :: "ModeTypeImpl \<Rightarrow> Expr \<Rightarrow> Mode \<Rightarrow> Stmt \<times> Expr \<times> Expr" where
  "getPosIter impl pPrev mode = (None, None, None)"

definition getPosAccess :: "ModeTypeImpl \<Rightarrow> Expr \<Rightarrow> Expr list \<Rightarrow> Mode \<Rightarrow> Stmt \<times> Expr \<times> Expr" where
  "getPosAccess impl p i mode = (None, None, None)"

definition getLocate :: "ModeTypeImpl \<Rightarrow> Expr \<Rightarrow> Expr list \<Rightarrow> Mode \<Rightarrow> Stmt \<times> Expr \<times> Expr" where
  "getLocate impl pPrev i mode = (None, None, None)"

definition getInsertCoord :: "ModeTypeImpl \<Rightarrow> Expr \<Rightarrow> Expr list \<Rightarrow> Mode \<Rightarrow> Stmt" where
  "getInsertCoord impl p i mode = None"

definition getSize_impl :: "ModeTypeImpl \<Rightarrow> Mode \<Rightarrow> Expr" where
  "getSize_impl impl mode = None"

definition getInsertInitCoords :: "ModeTypeImpl \<Rightarrow> Expr \<Rightarrow> Expr \<Rightarrow> Mode \<Rightarrow> Stmt" where
  "getInsertInitCoords impl pBegin pEnd mode = None"

definition getInsertInitLevel :: "ModeTypeImpl \<Rightarrow> Expr \<Rightarrow> Expr \<Rightarrow> Mode \<Rightarrow> Stmt" where
  "getInsertInitLevel impl szPrev sz mode = None"

definition getInsertFinalizeLevel :: "ModeTypeImpl \<Rightarrow> Expr \<Rightarrow> Expr \<Rightarrow> Mode \<Rightarrow> Stmt" where
  "getInsertFinalizeLevel impl szPrev sz mode = None"

definition getAppendCoord :: "ModeTypeImpl \<Rightarrow> Expr \<Rightarrow> Expr \<Rightarrow> Mode \<Rightarrow> Stmt" where
  "getAppendCoord impl p i mode = None"

definition getAppendEdges :: "ModeTypeImpl \<Rightarrow> Expr \<Rightarrow> Expr \<Rightarrow> Expr \<Rightarrow> Mode \<Rightarrow> Stmt" where
  "getAppendEdges impl pPrev pBegin pEnd mode = None"

definition getAppendInitEdges :: "ModeTypeImpl \<Rightarrow> Expr \<Rightarrow> Expr \<Rightarrow> Mode \<Rightarrow> Stmt" where
  "getAppendInitEdges impl pPrevBegin pPrevEnd mode = None"

definition getAppendInitLevel :: "ModeTypeImpl \<Rightarrow> Expr \<Rightarrow> Expr \<Rightarrow> Mode \<Rightarrow> Stmt" where
  "getAppendInitLevel impl szPrev sz mode = None"

definition getAppendFinalizeLevel :: "ModeTypeImpl \<Rightarrow> Expr \<Rightarrow> Expr \<Rightarrow> Mode \<Rightarrow> Stmt" where
  "getAppendFinalizeLevel impl szPrev sz mode = None"

text \<open>A returned fragment is defined when one of its parts is.\<close>

definition fragment_defined :: "Stmt \<times> Expr \<times> Expr \<Rightarrow> bool" where
  "fragment_defined r = (r \<noteq> (None, None, None))"

section \<open>Sample inputs\<close>

text \<open>A base printer, a table of \<^verbatim>\<open>Var\<close> nodes, an operating system and a store, used
  where a statement is evaluated on a concrete input.\<close>

definition sample_printer :: IRPrinter where
  "sample_printer =
     \<lparr>expr_text = (\<lambda>t texts. t @ ''('' @ concat texts @ '')''),
      stmt_text = (\<lambda>t n texts. do_indent n @ t @ ''('' @ concat texts @ '');''),
      ite_text = (\<lambda>n c t e. do_indent n @ ''if ('' @ c @ '')'' @ t @
                    (case e of None \<Rightarrow> [] | Some x \<Rightarrow> ''else'' @ x))\<rparr>"

text \<open>Node 0 is \<^verbatim>\<open>int a\<close>, node 1 is \<^verbatim>\<open>double* a\<close>, every other node is \<^verbatim>\<open>int t\<close>.\<close>

definition sample_vars :: var_table where
  "sample_vars = (\<lambda>a.
     if a = 0 then \<lparr>name = ''a'', type = TInt, is_ptr = False\<rparr>
     else if a = 1 then \<lparr>name = ''a'', type = TDouble, is_ptr = True\<rparr>
     else \<lparr>name = ''t'', type = TInt, is_ptr = False\<rparr>)"

text \<open>Node 0 is \<^verbatim>\<open>int _t_0\<close>, every other node is \<^verbatim>\<open>int t\<close>.\<close>

definition underscore_vars :: var_table where
  "underscore_vars = (\<lambda>a.
     if a = 0 then \<lparr>name = ''_t_0'', type = TInt, is_ptr = False\<rparr>
     else \<lparr>name = ''t'', type = TInt, is_ptr = False\<rparr>)"

text \<open>The members of a printer while it prints the body of a function with the one
  input \<^verbatim>\<open>a\<close>.\<close>

definition sample_state :: CodeGen_C where
  "sample_state =
     \<lparr>indent = 1, func_block = False, func_decls = [], var_map = [(0, ''a'')],
      unique_name_counter = 0\<rparr>"

text \<open>An operating system whose compiler fails with status 1, and one whose compiler
  succeeds but whose loader finds nothing.\<close>

definition failing_cc :: os where
  "failing_cc =
     \<lparr>system_status = (\<lambda>cmd. 1), dlopen_handle = (\<lambda>path. 0), dlsym_address = (\<lambda>h nm. 0)\<rparr>"

definition failing_loader :: os where
  "failing_loader =
     \<lparr>system_status = (\<lambda>cmd. 0), dlopen_handle = (\<lambda>path. 0), dlsym_address = (\<lambda>h nm. 0)\<rparr>"

definition sample_module :: Module where
  "sample_module = Module_new ''int f() { return 0; }'' None (\<lambda>i. 8) 0"

text \<open>A mode built with pack location 7 and no pack, in an empty store.\<close>

definition sample_store :: store where
  "sample_store = snd (Mode_new 0 None None 0 None None 7 None Map.empty)"

section \<open>Properties\<close>

subsection \<open>Auxiliary facts\<close>

text \<open>The equations of \<open>show_nat\<close> and \<open>loop_body\<close> rewrite any call; they are used where
  they are named.\<close>

declare show_nat.simps [simp del]

declare loop_body.simps [simp del]

lemma bind_Inr [simp]: "bind (Inr x) f = f x"
  by (simp add: bind_def)

lemma bind_Inl [simp]: "bind (Inl e) f = Inl e"
  by (simp add: bind_def)

lemma bind_Inr_iff: "bind m f = Inr y \<longleftrightarrow> (\<exists>x. m = Inr x \<and> f x = Inr y)"
  by (cases m) simp_all

lemma bind_return [simp]: "bind m Inr = m"
  by (cases m) simp_all

lemma bind_assoc: "bind (bind m f) g = bind m (\<lambda>x. bind (f x) g)"
  by (cases m) simp_all

lemma bind_cong_Inr: "(\<And>x. m = Inr x \<Longrightarrow> f x = g x) \<Longrightarrow> bind m f = bind m g"
  by (cases m) simp_all

subsection \<open>The JIT module\<close>

text \<open>
  Claim C4.  \<^verbatim>\<open>Module::compile\<close> writes the stored source to the file
  \<^verbatim>\<open><tmpdir><stem>.c\<close>, runs exactly the command
  \<^verbatim>\<open>cc -std=c99 -shared <tmpdir><stem>.c -o <tmpdir><stem>.so\<close> through the shell, and loads
  the shared object only when the command's status is zero; when the status is not zero
  it aborts with a diagnostic that reports the command and the status.
\<close>

theorem Module_compile_command:
  "fst (Module_compile sys m) =
     [Write_file (tmpdir m @ libname m @ ''.c'') (source m),
      System (''cc -std=c99 -shared '' @ tmpdir m @ libname m @ ''.c -o '' @
              tmpdir m @ libname m @ ''.so'')]
     @ (if system_status sys (''cc -std=c99 -shared '' @ tmpdir m @ libname m @ ''.c -o '' @
                              tmpdir m @ libname m @ ''.so'') = 0
        then [Dlopen (tmpdir m @ libname m @ ''.so'')] else [])
   \<and> (system_status sys (''cc -std=c99 -shared '' @ tmpdir m @ libname m @ ''.c -o '' @
                         tmpdir m @ libname m @ ''.so'') \<noteq> 0 \<longrightarrow>
       snd (Module_compile sys m) =
         Inl (UserError (''Compilation command failed:\<newline>'' @
           ''cc -std=c99 -shared '' @ tmpdir m @ libname m @ ''.c -o '' @
           tmpdir m @ libname m @ ''.so'' @ ''\<newline>returned '' @
           show_int (system_status sys (''cc -std=c99 -shared '' @ tmpdir m @ libname m @
                                        ''.c -o '' @ tmpdir m @ libname m @ ''.so'')))))"
  by (simp add: Module_compile_def Let_def)

lemma sample_module_fields:
  "tmpdir sample_module = ''/tmp/''"
  "libname sample_module = ''iiiiiiiiiiii''"
  "source sample_module = ''#include <stdio.h>\<newline>int f() { return 0; }''"
  "lib_handle sample_module = 0"
  by (simp_all add: sample_module_def Module_new_def set_libname_def chars_def upt_rec)

theorem Module_compile_command_witness:
  "fst (Module_compile failing_cc sample_module) =
     [Write_file ''/tmp/iiiiiiiiiiii.c'' ''#include <stdio.h>\<newline>int f() { return 0; }'',
      System ''cc -std=c99 -shared /tmp/iiiiiiiiiiii.c -o /tmp/iiiiiiiiiiii.so'']
   \<and> snd (Module_compile failing_cc sample_module) =
       Inl (UserError (''Compilation command failed:\<newline>'' @
         ''cc -std=c99 -shared /tmp/iiiiiiiiiiii.c -o /tmp/iiiiiiiiiiii.so'' @
         ''\<newline>returned 1''))"
  using Module_compile_command [of failing_cc sample_module]
  by (simp add: failing_cc_def sample_module_fields show_int_def show_nat.simps)

text \<open>
  Claim C5.  A lookup of a symbol that the loaded library does not have aborts with a
  diagnostic, and a pointer that \<^verbatim>\<open>get_func\<close> returns is never null.
\<close>

lemma get_func_result:
  "(dlsym_address sys (lib_handle m) nm = 0 \<longrightarrow>
      snd (get_func sys m nm) =
        Inl (UserError (''Function '' @ nm @ '' not found in module '' @ tmpdir m @ libname m)))
   \<and> (\<forall>p. snd (get_func sys m nm) = Inr p \<longrightarrow> p \<noteq> 0)"
  by (simp add: get_func_def Let_def)

text \<open>
  Claim C5, the load failure.  \<^verbatim>\<open>Module::compile\<close> stores what \<^verbatim>\<open>dlopen\<close> returns and does
  not look at it: when the compiler succeeds and the loader fails, \<^verbatim>\<open>compile\<close> returns the
  path of the shared object as if the library were loaded, with a null handle in the
  module.
\<close>

theorem Module_compile_ignores_load_failure:
  "Module_compile failing_loader sample_module =
     ([Write_file ''/tmp/iiiiiiiiiiii.c'' ''#include <stdio.h>\<newline>int f() { return 0; }'',
       System ''cc -std=c99 -shared /tmp/iiiiiiiiiiii.c -o /tmp/iiiiiiiiiiii.so'',
       Dlopen ''/tmp/iiiiiiiiiiii.so''],
      Inr (''/tmp/iiiiiiiiiiii.so'', sample_module\<lparr>lib_handle := 0\<rparr>))"
  by (simp add: Module_compile_def Let_def failing_loader_def sample_module_fields)

text \<open>
  Claim C6, as the code has it.  Every library stem a module generates is 12 characters
  long and every character is one of \<^verbatim>\<open>abcdefghijkmnpqrstuvwxyz0123456789\<close>: the letters
  \<^verbatim>\<open>l\<close> and \<^verbatim>\<open>o\<close> never occur, the letter \<^verbatim>\<open>i\<close> may.
\<close>

theorem set_libname_alphabet:
  "length (libname (set_libname rand m)) = 12 \<and>
   set (libname (set_libname rand m)) \<subseteq> set ''abcdefghijkmnpqrstuvwxyz0123456789'' \<and>
   CHR ''l'' \<notin> set (libname (set_libname rand m)) \<and>
   CHR ''o'' \<notin> set (libname (set_libname rand m)) \<and>
   libname (Module_new src tmp rand h) = libname (set_libname rand m)"
proof -
  have len: "length chars = 34"
    by (simp add: chars_def)
  have sub: "set (libname (set_libname rand m)) \<subseteq> set chars"
    by (auto simp: set_libname_def len)
  have "CHR ''l'' \<notin> set chars" and "CHR ''o'' \<notin> set chars"
    by (simp_all add: chars_def)
  with sub show ?thesis
    by (auto simp: set_libname_def chars_def Module_new_def)
qed

text \<open>Claim C6 as stated fails: when \<^verbatim>\<open>rand()\<close> returns 8 the stem's character is \<^verbatim>\<open>i\<close>.\<close>

theorem set_libname_contains_i:
  "CHR ''i'' \<in> set (libname (set_libname (\<lambda>i. 8) sample_module)) \<and>
   libname (Module_new ''int f() { return 0; }'' None (\<lambda>i. 8) 0) = ''iiiiiiiiiiii''"
  by (simp add: Module_new_def set_libname_def chars_def upt_rec)

subsection \<open>Mode types\<close>

text \<open>
  Claim C7, as the code has it.  Every operation that \<^verbatim>\<open>ModeTypeImpl\<close> itself implements
  returns an empty fragment, whatever the capability flags of the mode type are: all
  parts of a returned tuple are undefined, and a returned statement or expression is
  undefined.  In particular \<^verbatim>\<open>getPosIter\<close> and \<^verbatim>\<open>getLocate\<close> return a tuple whose statement
  and expressions are all undefined.
\<close>

theorem ModeTypeImpl_operations_empty:
  "getCoordIter impl i mode = (None, None, None) \<and>
   getCoordAccess impl pPrev i mode = (None, None, None) \<and>
   getPosIter impl pPrev mode = (None, None, None) \<and>
   getPosAccess impl p i mode = (None, None, None) \<and>
   getLocate impl pPrev i mode = (None, None, None) \<and>
   getInsertCoord impl p i mode = None \<and>
   getSize_impl impl mode = None \<and>
   getInsertInitCoords impl pBegin pEnd mode = None \<and>
   getInsertInitLevel impl szPrev sz mode = None \<and>
   getInsertFinalizeLevel impl szPrev sz mode = None \<and>
   getAppendCoord impl p c mode = None \<and>
   getAppendEdges impl pPrev pBegin pEnd mode = None \<and>
   getAppendInitEdges impl pPrevBegin pPrevEnd mode = None \<and>
   getAppendInitLevel impl szPrev sz mode = None \<and>
   getAppendFinalizeLevel impl szPrev sz mode = None \<and>
   \<not> fragment_defined (getPosIter impl pPrev mode) \<and>
   \<not> fragment_defined (getLocate impl pPrev i mode)"
  by (simp add: getCoordIter_def getCoordAccess_def getPosIter_def getPosAccess_def
      getLocate_def getInsertCoord_def getSize_impl_def getInsertInitCoords_def
      getInsertInitLevel_def getInsertFinalizeLevel_def getAppendCoord_def
      getAppendEdges_def getAppendInitEdges_def getAppendInitLevel_def
      getAppendFinalizeLevel_def fragment_defined_def)

text \<open>Claim C7 as stated fails: a mode type built with \<^verbatim>\<open>hasLocate\<close> set still gets an
  empty fragment from \<^verbatim>\<open>ModeTypeImpl::getLocate\<close>.\<close>

theorem ModeTypeImpl_flag_without_fragment:
  "\<not> (fragment_defined
         (getLocate (ModeTypeImpl_new ''custom'' False True True False True False False True False False)
            None [] None)
       \<longleftrightarrow> hasLocate (ModeTypeImpl_new ''custom'' False True True False True False False True False False))"
  by (simp add: getLocate_def fragment_defined_def ModeTypeImpl_new_def)

subsection \<open>Modes and mode packs\<close>

lemma addVars_keeps_absent:
  "addVars (Some a) xs \<sigma> = Inr \<sigma>' \<Longrightarrow> \<sigma> a = Some c \<Longrightarrow> vars c nm = None \<Longrightarrow>
   nm \<notin> fst ` set xs \<Longrightarrow> \<exists>c'. \<sigma>' a = Some c' \<and> vars c' nm = None"
proof (induction xs arbitrary: \<sigma> c)
  case Nil
  then show ?case by simp
next
  case (Cons x xs)
  obtain n e where x: "x = (n, e)"
    by (cases x)
  from Cons.prems(1) x obtain \<sigma>1 where
    s1: "addVar (Some a) n e \<sigma> = Inr \<sigma>1" and rest: "addVars (Some a) xs \<sigma>1 = Inr \<sigma>'"
    by (auto simp: bind_Inr_iff)
  from s1 Cons.prems(2) have "\<sigma>1 a = Some (c\<lparr>vars := (vars c)(n \<mapsto> e)\<rparr>)"
    by (auto simp: addVar_def update_content_def split: if_splits)
  moreover from Cons.prems(3,4) x have "vars (c\<lparr>vars := (vars c)(n \<mapsto> e)\<rparr>) nm = None"
    by auto
  moreover from Cons.prems(4) have "nm \<notin> fst ` set xs"
    by auto
  ultimately show ?case
    using Cons.IH [OF rest] by blast
qed

text \<open>
  Claim C10.  For every defined mode, every name and every \<^verbatim>\<open>Var\<close> expression \<open>v\<close>:
  \<^verbatim>\<open>addVar(name, v)\<close> succeeds, and after it \<^verbatim>\<open>hasVar(name)\<close> is true and \<^verbatim>\<open>getVar(name)\<close>
  returns \<open>v\<close>, whatever was bound to the name before.  \<^verbatim>\<open>addVar\<close> fails its assertion on
  an argument that is not a \<^verbatim>\<open>Var\<close> node.  \<^verbatim>\<open>getVar\<close> fails its assertion on a name that is
  not bound, and so on a name that was never added since the mode was constructed.
\<close>

theorem Mode_addVar_getVar:
  assumes "defined mode" and "content_of mode \<sigma> = Inr c"
  shows "(\<exists>\<sigma>'. addVar mode varName (Some (Var v)) \<sigma> = Inr \<sigma>' \<and>
              hasVar mode varName \<sigma>' = Inr True \<and>
              getVar mode varName \<sigma>' = Inr (Some (Var v)))
       \<and> (\<not> isa_Var e \<longrightarrow> addVar mode varName e \<sigma> = Inl (InternalAssert []))
       \<and> (vars c varName = None \<longrightarrow> getVar mode varName \<sigma> = Inl (InternalAssert []))
       \<and> (\<forall>xs \<sigma>1 \<sigma>2 \<sigma>3.
            Mode_new b t d l mt pk loc pmt \<sigma>1 = (Some b, \<sigma>2) \<longrightarrow>
            addVars (Some b) xs \<sigma>2 = Inr \<sigma>3 \<longrightarrow> varName \<notin> fst ` set xs \<longrightarrow>
            getVar (Some b) varName \<sigma>3 = Inl (InternalAssert []))"
proof -
  from assms obtain a where mode: "mode = Some a" and a: "\<sigma> a = Some c"
    by (auto simp: content_of_def split: option.splits)
  have 1: "\<exists>\<sigma>'. addVar mode varName (Some (Var v)) \<sigma> = Inr \<sigma>' \<and>
             hasVar mode varName \<sigma>' = Inr True \<and>
             getVar mode varName \<sigma>' = Inr (Some (Var v))"
    using mode a
    by (simp add: addVar_def isa_Var_def update_content_def hasVar_def getVar_def content_of_def)
  have 2: "\<not> isa_Var e \<longrightarrow> addVar mode varName e \<sigma> = Inl (InternalAssert [])"
    by (simp add: addVar_def)
  have 3: "vars c varName = None \<longrightarrow> getVar mode varName \<sigma> = Inl (InternalAssert [])"
    using mode a by (simp add: getVar_def hasVar_def content_of_def)
  have 4: "getVar (Some b) varName \<sigma>3 = Inl (InternalAssert [])"
    if new: "Mode_new b t d l mt pk loc pmt \<sigma>1 = (Some b, \<sigma>2)"
      and adds: "addVars (Some b) xs \<sigma>2 = Inr \<sigma>3"
      and fresh: "varName \<notin> fst ` set xs"
    for xs \<sigma>1 \<sigma>2 \<sigma>3
  proof -
    from new obtain c0 where "\<sigma>2 b = Some c0" and "vars c0 varName = None"
      by (auto simp: Mode_new_def)
    from addVars_keeps_absent [OF adds this fresh]
    obtain c' where "\<sigma>3 b = Some c'" and "vars c' varName = None"
      by blast
    then show ?thesis
      by (simp add: getVar_def hasVar_def content_of_def)
  qed
  from 1 2 3 4 show ?thesis
    by blast
qed

lemma sample_store_0:
  "sample_store 0 =
     Some \<lparr>tensor = None, mode_size = None, level = 0, modeType = None, pack = None,
           packLoc = 7, parentModeType = None, vars = Map.empty\<rparr>"
  by (simp add: sample_store_def Mode_new_def)

theorem Mode_addVar_getVar_witness:
  "defined (Some 0)
   \<and> (\<exists>\<sigma>'. addVar (Some 0) ''pos'' (Some (Var 3)) sample_store = Inr \<sigma>' \<and>
            hasVar (Some 0) ''pos'' \<sigma>' = Inr True \<and>
            getVar (Some 0) ''pos'' \<sigma>' = Inr (Some (Var 3)))
   \<and> addVar (Some 0) ''pos'' (Some (ExprNode ''1'' [])) sample_store = Inl (InternalAssert [])
   \<and> getVar (Some 0) ''pos'' sample_store = Inl (InternalAssert [])"
proof -
  have d: "defined (Some 0)"
    by (simp add: defined_def)
  have c: "content_of (Some 0) sample_store =
      Inr \<lparr>tensor = None, mode_size = None, level = 0, modeType = None, pack = None,
           packLoc = 7, parentModeType = None, vars = Map.empty\<rparr>"
    by (simp add: content_of_def sample_store_0)
  from Mode_addVar_getVar [OF d c, of "''pos''" 3 "Some (ExprNode ''1'' [])"] d
  show ?thesis
    by (simp add: isa_Var_def)
qed

lemma set_packs_result:
  "set_packs this ms \<sigma> = Inr \<sigma>' \<Longrightarrow>
   \<sigma>' a = (case \<sigma> a of
             None \<Rightarrow> None
           | Some c \<Rightarrow> Some (if Some a \<in> set ms then c\<lparr>pack := Some this\<rparr> else c))"
proof (induction ms arbitrary: \<sigma>)
  case Nil
  then show ?case by (simp split: option.splits)
next
  case (Cons m ms)
  from Cons.prems obtain \<sigma>1 where
    u: "update_content m (\<lambda>c. c\<lparr>pack := Some this\<rparr>) \<sigma> = Inr \<sigma>1"
    and r: "set_packs this ms \<sigma>1 = Inr \<sigma>'"
    by (auto simp: bind_Inr_iff)
  from u obtain b cb where "m = Some b" and "\<sigma> b = Some cb"
    and "\<sigma>1 = \<sigma>(b \<mapsto> cb\<lparr>pack := Some this\<rparr>)"
    by (auto simp: update_content_def split: option.splits)
  with Cons.IH [OF r] show ?case
    by (auto split: option.splits)
qed

lemma set_packs_defined:
  "set_packs this ms \<sigma> = Inr \<sigma>' \<Longrightarrow> m \<in> set ms \<Longrightarrow> \<exists>a c. m = Some a \<and> \<sigma> a = Some c"
proof (induction ms arbitrary: \<sigma>)
  case Nil
  then show ?case by simp
next
  case (Cons x ms)
  from Cons.prems(1) obtain \<sigma>1 where
    u: "update_content x (\<lambda>c. c\<lparr>pack := Some this\<rparr>) \<sigma> = Inr \<sigma>1"
    and r: "set_packs this ms \<sigma>1 = Inr \<sigma>'"
    by (auto simp: bind_Inr_iff)
  from u obtain b cb where x: "x = Some b" and b: "\<sigma> b = Some cb"
    and s1: "\<sigma>1 = \<sigma>(b \<mapsto> cb\<lparr>pack := Some this\<rparr>)"
    by (auto simp: update_content_def split: option.splits)
  show ?case
  proof (cases "m = x")
    case True
    with x b show ?thesis by simp
  next
    case False
    with Cons.prems(2) have "m \<in> set ms"
      by simp
    from Cons.IH [OF r this] obtain a c where "m = Some a" and "\<sigma>1 a = Some c"
      by blast
    with s1 b show ?thesis
      by (auto split: if_splits)
  qed
qed

text \<open>
  Claim C8, as the code has it.  After a \<^verbatim>\<open>ModePack\<close> is constructed from a list of modes,
  the pack holds these modes and \<^verbatim>\<open>getPack()\<close> of every mode in the pack returns a pointer
  to that pack; each mode has one pack pointer, a pack has many modes.  The constructor
  does not touch the pack location: \<^verbatim>\<open>getPackLocation()\<close> of every mode in the pack is
  still the index its own constructor was given.
\<close>

theorem ModePack_new_back_reference:
  assumes "ModePack_new this ms \<sigma> = Inr (p, \<sigma>')"
  shows "modes p = ms \<and> getSize p = length ms \<and>
         (\<forall>m \<in> set (modes p).
            getPack m \<sigma>' = Inr (Some this) \<and>
            getPackLocation m \<sigma>' = getPackLocation m \<sigma> \<and>
            (\<exists>location. getPackLocation m \<sigma>' = Inr location))"
proof -
  from assms have sp: "set_packs this ms \<sigma> = Inr \<sigma>'" and p: "modes p = ms"
    by (auto simp: ModePack_new_def bind_Inr_iff)
  have "getPack m \<sigma>' = Inr (Some this) \<and> getPackLocation m \<sigma>' = getPackLocation m \<sigma>
        \<and> (\<exists>location. getPackLocation m \<sigma>' = Inr location)" if "m \<in> set ms" for m
  proof -
    from set_packs_defined [OF sp that] obtain a c where m: "m = Some a" and a: "\<sigma> a = Some c"
      by blast
    from set_packs_result [OF sp, of a] a m that have "\<sigma>' a = Some (c\<lparr>pack := Some this\<rparr>)"
      by simp
    with m a show ?thesis
      by (simp add: getPack_def getPackLocation_def content_of_def)
  qed
  with p show ?thesis
    unfolding getSize_def by blast
qed

lemma sample_pack:
  "ModePack_new 5 [Some 0] sample_store =
     Inr (\<lparr>modes = [Some 0]\<rparr>,
          sample_store(0 \<mapsto> \<lparr>tensor = None, mode_size = None, level = 0, modeType = None,
                               pack = Some 5, packLoc = 7, parentModeType = None,
                               vars = Map.empty\<rparr>))"
  by (simp add: ModePack_new_def update_content_def sample_store_0)

theorem ModePack_new_back_reference_witness:
  "ModePack_new 5 [Some 0] sample_store =
     Inr (\<lparr>modes = [Some 0]\<rparr>,
          sample_store(0 \<mapsto> \<lparr>tensor = None, mode_size = None, level = 0, modeType = None,
                               pack = Some 5, packLoc = 7, parentModeType = None,
                               vars = Map.empty\<rparr>))
   \<and> getPack (Some 0)
       (sample_store(0 \<mapsto> \<lparr>tensor = None, mode_size = None, level = 0, modeType = None,
                               pack = Some 5, packLoc = 7, parentModeType = None,
                               vars = Map.empty\<rparr>)) = Inr (Some 5)
   \<and> getPackLocation (Some 0)
       (sample_store(0 \<mapsto> \<lparr>tensor = None, mode_size = None, level = 0, modeType = None,
                               pack = Some 5, packLoc = 7, parentModeType = None,
                               vars = Map.empty\<rparr>)) = getPackLocation (Some 0) sample_store"
  using ModePack_new_back_reference [OF sample_pack] sample_pack
  by simp

text \<open>Claim C8 as stated fails: a mode constructed with pack location 7 is put into a
  pack of one mode; its pack pointer is the pack, its location is still 7.\<close>

theorem ModePack_new_location_out_of_range:
  "map_sum id (\<lambda>(p, \<sigma>'). (getSize p, getPack (Some 0) \<sigma>', getPackLocation (Some 0) \<sigma>'))
     (ModePack_new 5 [Some 0] (snd (Mode_new 0 None None 0 None None 7 None Map.empty)))
   = Inr (1, Inr (Some 5), Inr 7)"
  by (simp add: ModePack_new_def Mode_new_def update_content_def getSize_def
      getPack_def getPackLocation_def content_of_def)

subsection \<open>Decimal text and generated names\<close>

lemma digits_distinct: "distinct ''0123456789''"
  by simp

lemma digit_inj:
  "i < 10 \<Longrightarrow> j < 10 \<Longrightarrow> ''0123456789'' ! i = ''0123456789'' ! j \<Longrightarrow> i = j"
  using nth_eq_iff_index_eq [OF digits_distinct, of i j] by simp

lemma show_nat_digits: "set (show_nat n) \<subseteq> set ''0123456789''"
proof (induction n rule: show_nat.induct)
  case (1 n)
  show ?case
  proof (cases "n < 10")
    case True
    then have "''0123456789'' ! n \<in> set ''0123456789''"
      by (intro nth_mem) simp
    with True show ?thesis
      by (subst show_nat.simps) simp
  next
    case False
    have "''0123456789'' ! (n mod 10) \<in> set ''0123456789''"
      by (intro nth_mem) simp
    with False 1 show ?thesis
      by (subst show_nat.simps) simp
  qed
qed

lemma show_nat_nonempty: "show_nat n \<noteq> []"
  by (subst show_nat.simps) simp

lemma show_nat_inj: "show_nat m = show_nat n \<Longrightarrow> m = n"
proof (induction m arbitrary: n rule: show_nat.induct)
  case (1 m)
  show ?case
  proof (cases "m < 10")
    case True
    then have m: "show_nat m = [''0123456789'' ! m]"
      by (subst show_nat.simps) simp
    have "n < 10"
    proof (rule ccontr)
      assume "\<not> n < 10"
      then have "show_nat n = show_nat (n div 10) @ [''0123456789'' ! (n mod 10)]"
        by (subst show_nat.simps) simp
      with m "1.prems" show_nat_nonempty [of "n div 10"] show False
        by simp
    qed
    then have "show_nat n = [''0123456789'' ! n]"
      by (subst show_nat.simps) simp
    with m "1.prems" have "''0123456789'' ! m = ''0123456789'' ! n"
      by simp
    with True \<open>n < 10\<close> show ?thesis
      by (rule digit_inj)
  next
    case False
    then have m: "show_nat m = show_nat (m div 10) @ [''0123456789'' ! (m mod 10)]"
      by (subst show_nat.simps) simp
    have "\<not> n < 10"
    proof
      assume "n < 10"
      then have "show_nat n = [''0123456789'' ! n]"
        by (subst show_nat.simps) simp
      with m "1.prems" show_nat_nonempty [of "m div 10"] show False
        by simp
    qed
    then have n: "show_nat n = show_nat (n div 10) @ [''0123456789'' ! (n mod 10)]"
      by (subst show_nat.simps) simp
    from m n "1.prems" have a: "show_nat (m div 10) = show_nat (n div 10)"
      and b: "''0123456789'' ! (m mod 10) = ''0123456789'' ! (n mod 10)"
      by simp_all
    from "1.IH" [OF False a] have "m div 10 = n div 10" .
    moreover from b have "m mod 10 = n mod 10"
      by (intro digit_inj) simp_all
    ultimately show ?thesis
      by (metis div_mult_mod_eq)
  qed
qed

lemma show_nat_no_minus: "CHR ''-'' \<notin> set (show_nat n)"
proof -
  have "CHR ''-'' \<notin> set ''0123456789''"
    by simp
  with show_nat_digits [of n] show ?thesis
    by blast
qed

lemma show_nat_no_underscore: "CHR ''_'' \<notin> set (show_nat n)"
proof -
  have "CHR ''_'' \<notin> set ''0123456789''"
    by simp
  with show_nat_digits [of n] show ?thesis
    by blast
qed

lemma show_nat_not_minus: "show_nat n \<noteq> CHR ''-'' # cs"
proof
  assume "show_nat n = CHR ''-'' # cs"
  then have "CHR ''-'' \<in> set (show_nat n)"
    by simp
  with show_nat_no_minus show False
    by blast
qed

lemma show_int_inj: "show_int i = show_int j \<Longrightarrow> i = j"
proof -
  assume eq: "show_int i = show_int j"
  show ?thesis
  proof (cases "i < 0")
    case True
    show ?thesis
    proof (cases "j < 0")
      case jn: True
      with True eq have "show_nat (nat (- i)) = show_nat (nat (- j))"
        by (simp add: show_int_def)
      then have "nat (- i) = nat (- j)"
        by (rule show_nat_inj)
      with True jn show ?thesis
        by simp
    next
      case False
      with True eq have "show_nat (nat j) = CHR ''-'' # show_nat (nat (- i))"
        by (simp add: show_int_def)
      with show_nat_not_minus show ?thesis
        by blast
    qed
  next
    case False
    show ?thesis
    proof (cases "j < 0")
      case True
      with False eq have "show_nat (nat i) = CHR ''-'' # show_nat (nat (- j))"
        by (simp add: show_int_def)
      with show_nat_not_minus show ?thesis
        by blast
    next
      case jp: False
      with False eq have "show_nat (nat i) = show_nat (nat j)"
        by (simp add: show_int_def)
      then have "nat i = nat j"
        by (rule show_nat_inj)
      with False jp show ?thesis
        by simp
    qed
  qed
qed

lemma show_int_no_underscore: "CHR ''_'' \<notin> set (show_int i)"
  using show_nat_no_underscore by (simp add: show_int_def)

lemma split_at_first:
  "u \<notin> set a \<Longrightarrow> u \<notin> set b \<Longrightarrow> a @ u # c = b @ u # d \<Longrightarrow> a = b \<and> c = d"
proof (induction a arbitrary: b)
  case Nil
  show ?case
  proof (cases b)
    case Nil
    with Nil.prems show ?thesis by simp
  next
    case (Cons y ys)
    with Nil.prems show ?thesis by simp
  qed
next
  case (Cons x a)
  show ?case
  proof (cases b)
    case Nil
    with Cons.prems show ?thesis by simp
  next
    case (Cons y ys)
    with Cons.prems have "x = y" and "a @ u # c = ys @ u # d"
      and "u \<notin> set a" and "u \<notin> set ys"
      by simp_all
    with Cons.IH [of ys] Cons show ?thesis
      by simp
  qed
qed

lemma split_at_last:
  assumes "xs @ u # ys = xs' @ u # ys'" and "u \<notin> set ys" and "u \<notin> set ys'"
  shows "xs = xs' \<and> ys = ys'"
proof -
  from assms(1) have "rev (xs @ u # ys) = rev (xs' @ u # ys')"
    by (rule arg_cong)
  then have "rev ys @ u # rev xs = rev ys' @ u # rev xs'"
    by simp
  moreover have "u \<notin> set (rev ys)" and "u \<notin> set (rev ys')"
    using assms by simp_all
  ultimately have "rev ys = rev ys' \<and> rev xs = rev xs'"
    by (rule split_at_first [rotated 2])
  then show ?thesis
    by simp
qed

text \<open>The counter can be read back from a generated name: the text after the last
  underscore is its decimal form.\<close>

lemma unique_name_inj:
  assumes "''_'' @ n @ ''_'' @ show_int i = ''_'' @ n' @ ''_'' @ show_int j"
  shows "n = n' \<and> i = j"
proof -
  from assms have "n @ CHR ''_'' # show_int i = n' @ CHR ''_'' # show_int j"
    by simp
  from split_at_last [OF this show_int_no_underscore show_int_no_underscore]
  have "n = n'" and "show_int i = show_int j"
    by simp_all
  from this(1) show_int_inj [OF this(2)] show ?thesis
    by simp
qed

lemma generated_name_longer: "''_'' @ n @ ''_'' @ show_int k \<noteq> n"
proof
  assume "''_'' @ n @ ''_'' @ show_int k = n"
  then have "length (''_'' @ n @ ''_'' @ show_int k) = length n"
    by (rule arg_cong)
  then show False
    by simp
qed

subsection \<open>The renaming map\<close>

lemma map_of_map_assign: "map_of (map_assign k v m) = (map_of m)(k \<mapsto> v)"
  by (induction m) (auto simp: fun_eq_iff)

lemma map_count_0: "map_count m k = 0 \<longleftrightarrow> map_of m k = None"
  by (simp add: map_count_def split: option.splits)

lemma FindVars_copy_result:
  "FindVars_copy H nv dup xs vm = Inr vm' \<Longrightarrow>
   (\<forall>a. map_of vm' a = (if Var a \<in> set xs then Some (name (H a)) else map_of vm a))"
proof (induction xs arbitrary: vm)
  case Nil
  then show ?case by simp
next
  case (Cons x xs)
  from Cons.prems obtain a where x: "x = Var a" and fresh: "map_of vm a = None"
    and rest: "FindVars_copy H nv dup xs (map_assign a (name (H a)) vm) = Inr vm'"
    by (cases x) (auto simp: map_count_0 split: if_splits)
  from Cons.IH [OF rest] x show ?case
    by (auto simp: map_of_map_assign)
qed

lemma FindVars_result:
  assumes "FindVars H inputs outputs = Inr vm"
  shows "map_of vm a =
     (if Var a \<in> set inputs \<union> set outputs then Some (name (H a)) else None)"
proof -
  from assms obtain vm1 where
    1: "FindVars_copy H ''Inputs must be vars in codegen''
          ''Duplicate input found in codegen'' inputs [] = Inr vm1"
    and 2: "FindVars_copy H ''Outputs must be vars in codegen''
          ''Duplicate output found in codegen'' outputs vm1 = Inr vm"
    by (auto simp: FindVars_def bind_Inr_iff)
  from FindVars_copy_result [OF 1] FindVars_copy_result [OF 2] show ?thesis
    by auto
qed

text \<open>The walk of \<^verbatim>\<open>FindVars\<close> over a statement is the walk over the list of its \<^verbatim>\<open>Var\<close>
  nodes.\<close>

lemma FindVars_visit_Vars_Nil [simp]: "bind m (FindVars_visit_Vars H []) = m"
  by (cases m) simp_all

lemma FindVars_visit_Vars_append:
  "FindVars_visit_Vars H (xs @ ys) s =
   bind (FindVars_visit_Vars H xs s) (FindVars_visit_Vars H ys)"
proof (induction xs arbitrary: s)
  case Nil
  then show ?case by simp
next
  case (Cons a xs)
  have "bind (FindVars_visit_Var H a s) (FindVars_visit_Vars H (xs @ ys)) =
        bind (FindVars_visit_Var H a s)
          (\<lambda>x. bind (FindVars_visit_Vars H xs x) (FindVars_visit_Vars H ys))"
    by (rule bind_cong_Inr) (rule Cons.IH)
  then show ?case
    by (simp add: bind_assoc)
qed

lemma FindVars_visit_expr_Vars:
  "FindVars_visit_expr H e s = FindVars_visit_Vars H (vars_expr e) s"
  "FindVars_visit_exprs H es s = FindVars_visit_Vars H (vars_exprs es) s"
proof (induction H e s and H es s rule: FindVars_visit_expr_FindVars_visit_exprs.induct)
  case (4 H e es s)
  show ?case
    unfolding FindVars_visit_exprs.simps vars_exprs.simps FindVars_visit_Vars_append 4(1)
    by (rule bind_cong_Inr) (rule 4(2))
qed simp_all

lemma FindVars_visit_Vars_stmt:
  "FindVars_visit H st s = FindVars_visit_Vars H (vars_stmt st) s"
  "FindVars_visit_stmts H sts s = FindVars_visit_Vars H (vars_stmts sts) s"
proof (induction H st s and H sts s rule: FindVars_visit_FindVars_visit_stmts.induct)
  case (1 H contents s)
  then show ?case by simp
next
  case (2 H var start end' increment kind vec_width contents s)
  show ?case
    unfolding FindVars_visit.simps vars_stmt.simps FindVars_visit_Vars_append
      FindVars_visit_expr_Vars
    by (rule bind_cong_Inr) (rule 2)
next
  case (3 H cond kind vec_width contents s)
  show ?case
    unfolding FindVars_visit.simps vars_stmt.simps FindVars_visit_Vars_append
      FindVars_visit_expr_Vars
    by (rule bind_cong_Inr) (rule 3)
next
  case (4 H cond then' otherwise s)
  show ?case
  proof (cases otherwise)
    case None
    show ?thesis
      unfolding None FindVars_visit.simps vars_stmt.simps FindVars_visit_Vars_append
        FindVars_visit_expr_Vars option.case
      by (rule bind_cong_Inr) (simp add: 4(1))
  next
    case (Some e)
    have "bind (FindVars_visit H then' s1) (\<lambda>s2. FindVars_visit H e s2) =
          bind (FindVars_visit_Vars H (vars_stmt then') s1)
            (FindVars_visit_Vars H (vars_stmt e))" for s1
      unfolding 4(1) by (rule bind_cong_Inr) (rule 4(2) [OF Some])
    then show ?thesis
      unfolding Some FindVars_visit.simps vars_stmt.simps FindVars_visit_Vars_append
        FindVars_visit_expr_Vars option.case
      by simp
  qed
next
  case (5 H fname inputs outputs body s)
  show ?case
    unfolding FindVars_visit.simps vars_stmt.simps FindVars_visit_Vars_append
      FindVars_visit_expr_Vars
    by (rule bind_cong_Inr) (rule 5)
next
  case (6 H t es s)
  then show ?case by (simp add: FindVars_visit_expr_Vars)
next
  case (7 H s)
  then show ?case by simp
next
  case (8 H x xs s)
  show ?case
    unfolding FindVars_visit_stmts.simps vars_stmts.simps FindVars_visit_Vars_append 8(1)
    by (rule bind_cong_Inr) (rule 8(2))
qed

lemma FindVars_visit_Var_cases:
  assumes "FindVars_visit_Var H a (vm, c) = Inr (vm1, c1)"
  shows "(map_of vm a \<noteq> None \<and> vm1 = vm \<and> c1 = c) \<or>
         (map_of vm a = None \<and> c1 = c + 1 \<and>
          vm1 = map_assign a (''_'' @ name (H a) @ ''_'' @ show_int c) vm)"
  using assms
  by (auto simp: FindVars_visit_Var_def map_count_0 gen_unique_name_def bind_Inr_iff
      split: if_splits)

text \<open>
  What the walk does to the map: the counter grows, entries that were there stay, every
  node met that had no entry gets a name generated from a counter value of this walk, and
  no two of these nodes get the same name.
\<close>

lemma FindVars_visit_Vars_result:
  "FindVars_visit_Vars H xs (vm, c) = Inr (vm', c') \<Longrightarrow>
   c \<le> c' \<and>
   (\<forall>a. map_of vm a \<noteq> None \<longrightarrow> map_of vm' a = map_of vm a) \<and>
   (\<forall>a. a \<in> set xs \<longrightarrow> map_of vm a = None \<longrightarrow>
      (\<exists>k. c \<le> k \<and> k < c' \<and>
           map_of vm' a = Some (''_'' @ name (H a) @ ''_'' @ show_int k))) \<and>
   (\<forall>a b. a \<in> set xs \<longrightarrow> b \<in> set xs \<longrightarrow> map_of vm a = None \<longrightarrow> map_of vm b = None \<longrightarrow>
      map_of vm' a = map_of vm' b \<longrightarrow> a = b)"
proof (induction xs arbitrary: vm c)
  case Nil
  then show ?case by simp
next
  case (Cons x xs)
  from Cons.prems obtain vm1 c1 where
    head: "FindVars_visit_Var H x (vm, c) = Inr (vm1, c1)"
    and tail: "FindVars_visit_Vars H xs (vm1, c1) = Inr (vm', c')"
    by (auto simp: bind_Inr_iff)
  note IH = Cons.IH [OF tail]
  from IH have le: "c1 \<le> c'"
    by blast
  from IH have keep: "map_of vm1 a \<noteq> None \<Longrightarrow> map_of vm' a = map_of vm1 a" for a
    by blast
  from IH have fresh: "a \<in> set xs \<Longrightarrow> map_of vm1 a = None \<Longrightarrow>
      \<exists>k. c1 \<le> k \<and> k < c' \<and>
          map_of vm' a = Some (''_'' @ name (H a) @ ''_'' @ show_int k)" for a
    by blast
  from IH have inj: "a \<in> set xs \<Longrightarrow> b \<in> set xs \<Longrightarrow> map_of vm1 a = None \<Longrightarrow>
      map_of vm1 b = None \<Longrightarrow> map_of vm' a = map_of vm' b \<Longrightarrow> a = b" for a b
    by blast
  from FindVars_visit_Var_cases [OF head] show ?case
  proof
    assume "map_of vm x \<noteq> None \<and> vm1 = vm \<and> c1 = c"
    then have old: "map_of vm x \<noteq> None" and same: "vm1 = vm" "c1 = c"
      by simp_all
    have 1: "c \<le> c'"
      using le same by simp
    have 2: "\<forall>a. map_of vm a \<noteq> None \<longrightarrow> map_of vm' a = map_of vm a"
      using keep same by simp
    have 3: "\<forall>a. a \<in> set (x # xs) \<longrightarrow> map_of vm a = None \<longrightarrow>
      (\<exists>k. c \<le> k \<and> k < c' \<and>
           map_of vm' a = Some (''_'' @ name (H a) @ ''_'' @ show_int k))"
      using fresh old same by auto
    have 4: "\<forall>a b. a \<in> set (x # xs) \<longrightarrow> b \<in> set (x # xs) \<longrightarrow> map_of vm a = None \<longrightarrow>
      map_of vm b = None \<longrightarrow> map_of vm' a = map_of vm' b \<longrightarrow> a = b"
      using inj old same by auto
    from 1 2 3 4 show ?thesis
      by blast
  next
    assume "map_of vm x = None \<and> c1 = c + 1 \<and>
          vm1 = map_assign x (''_'' @ name (H x) @ ''_'' @ show_int c) vm"
    then have new: "map_of vm x = None" and c1: "c1 = c + 1"
      and vm1: "map_of vm1 = (map_of vm)(x \<mapsto> ''_'' @ name (H x) @ ''_'' @ show_int c)"
      by (simp_all add: map_of_map_assign)
    have at_x: "map_of vm' x = Some (''_'' @ name (H x) @ ''_'' @ show_int c)"
      using keep [of x] vm1 by simp
    have other: "map_of vm1 a = map_of vm a" if "a \<noteq> x" for a
      using vm1 that by simp
    have later: "\<exists>k. c + 1 \<le> k \<and> k < c' \<and>
        map_of vm' a = Some (''_'' @ name (H a) @ ''_'' @ show_int k)"
      if "a \<in> set (x # xs)" and "a \<noteq> x" and "map_of vm a = None" for a
      using fresh [of a] that other [of a] c1 by simp
    have differ: "map_of vm' a \<noteq> map_of vm' x"
      if "a \<in> set (x # xs)" and "a \<noteq> x" and "map_of vm a = None" for a
    proof
      assume eq: "map_of vm' a = map_of vm' x"
      from later [OF that] obtain k where k: "c + 1 \<le> k"
        and "map_of vm' a = Some (''_'' @ name (H a) @ ''_'' @ show_int k)"
        by blast
      with eq at_x
      have "''_'' @ name (H a) @ ''_'' @ show_int k = ''_'' @ name (H x) @ ''_'' @ show_int c"
        by simp
      from unique_name_inj [OF this] k show False
        by simp
    qed
    have 1: "c \<le> c'"
      using le c1 by simp
    have 2: "\<forall>a. map_of vm a \<noteq> None \<longrightarrow> map_of vm' a = map_of vm a"
    proof (intro allI impI)
      fix a
      assume a: "map_of vm a \<noteq> None"
      with new have "a \<noteq> x"
        by auto
      with a other [of a] keep [of a] show "map_of vm' a = map_of vm a"
        by simp
    qed
    have 3: "\<forall>a. a \<in> set (x # xs) \<longrightarrow> map_of vm a = None \<longrightarrow>
      (\<exists>k. c \<le> k \<and> k < c' \<and>
           map_of vm' a = Some (''_'' @ name (H a) @ ''_'' @ show_int k))"
    proof (intro allI impI)
      fix a
      assume a: "a \<in> set (x # xs)" "map_of vm a = None"
      show "\<exists>k. c \<le> k \<and> k < c' \<and>
          map_of vm' a = Some (''_'' @ name (H a) @ ''_'' @ show_int k)"
      proof (cases "a = x")
        case True
        with at_x le c1 show ?thesis
          by (intro exI [of _ c]) simp
      next
        case False
        from later [OF a(1) False a(2)] obtain k where "c + 1 \<le> k" and "k < c'"
          and "map_of vm' a = Some (''_'' @ name (H a) @ ''_'' @ show_int k)"
          by blast
        then show ?thesis
          by (intro exI [of _ k]) simp
      qed
    qed
    have 4: "\<forall>a b. a \<in> set (x # xs) \<longrightarrow> b \<in> set (x # xs) \<longrightarrow> map_of vm a = None \<longrightarrow>
      map_of vm b = None \<longrightarrow> map_of vm' a = map_of vm' b \<longrightarrow> a = b"
    proof (intro allI impI)
      fix a b
      assume a: "a \<in> set (x # xs)" and b: "b \<in> set (x # xs)"
        and na: "map_of vm a = None" and nb: "map_of vm b = None"
        and eq: "map_of vm' a = map_of vm' b"
      show "a = b"
      proof (cases "a = x")
        case ax: True
        show ?thesis
        proof (cases "b = x")
          case True
          with ax show ?thesis by simp
        next
          case False
          from differ [OF b False nb] eq ax show ?thesis
            by simp
        qed
      next
        case ax: False
        show ?thesis
        proof (cases "b = x")
          case True
          from differ [OF a ax na] eq True show ?thesis
            by simp
        next
          case False
          from a ax have "a \<in> set xs"
            by simp
          moreover from b False have "b \<in> set xs"
            by simp
          moreover from na ax other have "map_of vm1 a = None"
            by simp
          moreover from nb False other have "map_of vm1 b = None"
            by simp
          ultimately show ?thesis
            using eq by (rule inj)
        qed
      qed
    qed
    from 1 2 3 4 show ?thesis
      by blast
  qed
qed

subsection \<open>The printer\<close>

lemma restore_state:
  "\<not> func_block st \<Longrightarrow> st\<lparr>func_block := False, indent := indent st\<rparr> = st"
  "st\<lparr>indent := indent st\<rparr> = st"
  by (cases st, simp)+

text \<open>
  Once \<^verbatim>\<open>func_block\<close> is cleared, the visitor prints a statement that holds no \<^verbatim>\<open>Function\<close>
  exactly as the reference printer does, and leaves all members as they were.
\<close>

lemma visit_nested:
  "no_Function s \<Longrightarrow> \<not> func_block st \<Longrightarrow>
     visit P H s st = bind (print_nested P H (var_map st) (indent st) s) (\<lambda>t. Inr (t, st))"
  "no_Functions ss \<Longrightarrow> \<not> func_block st \<Longrightarrow>
     visit_contents P H ss st =
       bind (print_nested_contents P H (var_map st) (indent st) ss) (\<lambda>t. Inr (t, st))"
  "no_Function s \<Longrightarrow> \<not> func_block st \<Longrightarrow>
     loop_body P H s st =
       bind (print_nested P H (var_map st) (if is_Block s then indent st else indent st + 1) s)
         (\<lambda>c. Inr ((if is_Block s then [] else do_indent (indent st + 1)) @ c @
                    do_indent (indent st) @ ''}\<newline>'', st))"
proof (induction P H s st and P H ss st and P H s st rule: visit_visit_contents_loop_body.induct)
  case (1 P H fname inputs outputs body st)
  then show ?case by simp
next
  case (2 P H var start end' increment kind vec_width contents st)
  then show ?case
    by (simp add: bind_def split: sum.splits)
next
  case (3 P H cond kind vec_width contents st)
  then show ?case
    by (simp add: bind_def split: sum.splits)
next
  case (4 P H contents st)
  then show ?case
    by (simp add: bind_def Let_def restore_state split: sum.splits)
next
  case (5 P H cond then' otherwise st)
  then show ?case
    by (cases otherwise) (simp_all add: bind_def split: sum.splits)
next
  case (6 P H t es st)
  then show ?case
    by (simp add: bind_def split: sum.splits)
next
  case (7 P H st)
  then show ?case by simp
next
  case (8 P H s rest st)
  then show ?case
    by (simp add: bind_def split: sum.splits)
next
  case (9 P H contents st)
  then show ?case
    by (cases "is_Block contents")
       (simp_all add: loop_body.simps bind_def restore_state split: sum.splits)
qed

text \<open>Printing a statement that holds no \<^verbatim>\<open>Function\<close> changes no member but \<^verbatim>\<open>func_block\<close>.\<close>

lemma visit_frame:
  "no_Function s \<Longrightarrow> visit P H s st = Inr (t, st') \<Longrightarrow> \<exists>b. st' = st\<lparr>func_block := b\<rparr>"
  "no_Functions ss \<Longrightarrow> visit_contents P H ss st = Inr (t, st') \<Longrightarrow>
     \<exists>b. st' = st\<lparr>func_block := b\<rparr>"
  "no_Function s \<Longrightarrow> loop_body P H s st = Inr (t, st') \<Longrightarrow> \<exists>b. st' = st\<lparr>func_block := b\<rparr>"
proof (induction P H s st and P H ss st and P H s st arbitrary: t st' and t st' and t st'
    rule: visit_visit_contents_loop_body.induct)
  case (1 P H fname inputs outputs body st)
  then show ?case by simp
next
  case (2 P H var start end' increment kind vec_width contents st)
  from "2.prems" obtain rest where "loop_body P H contents st = Inr (rest, st')"
    by (auto simp: bind_Inr_iff)
  with "2.IH" "2.prems"(1) show ?case
    by simp
next
  case (3 P H cond kind vec_width contents st)
  from "3.prems" obtain rest where "loop_body P H contents st = Inr (rest, st')"
    by (auto simp: bind_Inr_iff)
  with "3.IH" "3.prems"(1) show ?case
    by simp
next
  case (4 P H contents st)
  from "4.prems" obtain inner st2 where
    inner: "visit_contents P H contents (st\<lparr>func_block := False, indent := indent st + 1\<rparr>) =
      Inr (inner, st2)"
    and st': "st' = st2\<lparr>indent := indent st2 - 1\<rparr>"
    by (auto simp: bind_Inr_iff Let_def)
  from "4.IH" [OF refl refl _ inner] "4.prems"(1)
  obtain b where
    "st2 = st\<lparr>func_block := False, indent := indent st + 1\<rparr>\<lparr>func_block := b\<rparr>"
    by auto
  with st' have "st' = st\<lparr>func_block := b\<rparr>"
    by (cases st) simp
  then show ?case ..
next
  case (5 P H cond then' otherwise st)
  from "5.prems" obtain c tt st1 where
    th: "visit P H then' st = Inr (tt, st1)"
    and rest: "(case otherwise of
           None \<Rightarrow> Inr (ite_text P (indent st) c tt None, st1)
         | Some else' \<Rightarrow>
             bind (visit P H else' st1)
               (\<lambda>(e, st2). Inr (ite_text P (indent st) c tt (Some e), st2)))
         = Inr (t, st')"
    by (auto simp: bind_Inr_iff)
  from "5.IH"(1) [OF _ th] "5.prems"(1) obtain b1 where st1: "st1 = st\<lparr>func_block := b1\<rparr>"
    by auto
  show ?case
  proof (cases otherwise)
    case None
    with rest st1 show ?thesis
      by auto
  next
    case (Some e)
    with rest obtain et where el: "visit P H e st1 = Inr (et, st')"
      by (auto simp: bind_Inr_iff)
    from "5.IH"(2) [OF Some _ el] "5.prems"(1) Some
    obtain b2 where "st' = st1\<lparr>func_block := b2\<rparr>"
      by auto
    with st1 have "st' = st\<lparr>func_block := b2\<rparr>"
      by simp
    then show ?thesis ..
  qed
next
  case (6 P H t es st)
  from "6.prems"(2) have "st' = st"
    by (auto simp: bind_Inr_iff)
  then have "st' = st\<lparr>func_block := func_block st\<rparr>"
    by simp
  then show ?case ..
next
  case (7 P H st)
  from "7.prems"(2) have "st' = st\<lparr>func_block := func_block st\<rparr>"
    by simp
  then show ?case ..
next
  case (8 P H s rest st)
  from "8.prems" obtain t1 st1 t2 where
    first: "visit P H s st = Inr (t1, st1)"
    and others: "visit_contents P H rest st1 = Inr (t2, st')"
    by (auto simp: bind_Inr_iff)
  from "8.IH"(1) [OF _ first] "8.prems"(1) obtain b1 where st1: "st1 = st\<lparr>func_block := b1\<rparr>"
    by auto
  from "8.IH"(2) [OF _ others] "8.prems"(1) obtain b2 where "st' = st1\<lparr>func_block := b2\<rparr>"
    by auto
  with st1 have "st' = st\<lparr>func_block := b2\<rparr>"
    by simp
  then show ?case ..
next
  case (9 P H contents st)
  show ?case
  proof (cases "is_Block contents")
    case True
    with "9.prems"(2) obtain c where "visit P H contents st = Inr (c, st')"
      by (auto simp: loop_body.simps bind_Inr_iff)
    from "9.IH"(2) [OF _ "9.prems"(1) this] True show ?thesis
      by simp
  next
    case False
    with "9.prems"(2) obtain c st1 where
      v: "visit P H contents (st\<lparr>indent := indent st + 1\<rparr>) = Inr (c, st1)"
      and st': "st' = st1\<lparr>indent := indent st1 - 1\<rparr>"
      by (auto simp: loop_body.simps bind_Inr_iff)
    from "9.IH"(1) [OF False "9.prems"(1) v]
    obtain b where "st1 = st\<lparr>indent := indent st + 1\<rparr>\<lparr>func_block := b\<rparr>"
      by auto
    with st' have "st' = st\<lparr>func_block := b\<rparr>"
      by (cases st) simp
    then show ?thesis ..
  qed
qed

lemma print_decls_lines:
  "print_decls H vm inputs outputs = Inr d \<Longrightarrow>
   d = concat (map (decl_line H) (declared vm inputs outputs))"
proof (induction vm arbitrary: d)
  case Nil
  then show ?case by (simp add: declared_def)
next
  case (Cons entry vm)
  obtain var emitted where entry: "entry = (var, emitted)"
    by (cases entry)
  show ?case
  proof (cases "Var var \<notin> set inputs \<and> Var var \<notin> set outputs")
    case True
    with Cons.prems entry obtain ty rest where
      ty: "to_c_type (type (H var)) (is_ptr (H var)) = Inr ty"
      and rest: "print_decls H vm inputs outputs = Inr rest"
      and d: "d = ''  '' @ ty @ '' '' @ emitted @ '';\<newline>'' @ rest"
      by (auto simp: bind_Inr_iff)
    from Cons.IH [OF rest] True entry ty d show ?thesis
      by (simp add: declared_def decl_line_def)
  next
    case False
    with Cons.prems entry have "print_decls H vm inputs outputs = Inr d"
      by auto
    from Cons.IH [OF this] False entry show ?thesis
      by (auto simp: declared_def)
  qed
qed

text \<open>The parameter list of the signature gives each input and each output its C type
  and its source name.\<close>

lemma print_inputs_params:
  "print_inputs H inputs = Inr ins \<Longrightarrow>
   \<exists>ias. inputs = map Var ias \<and> ins = comma_separated (map (param H) ias)"
proof (induction inputs arbitrary: ins)
  case Nil
  then show ?case by simp
next
  case (Cons i rest)
  from Cons.prems obtain a ty more where i: "i = Var a"
    and ty: "to_c_type (type (H a)) (is_ptr (H a)) = Inr ty"
    and more: "print_inputs H rest = Inr more"
    and ins: "ins = ty @ '' '' @ name (H a) @ (if rest \<noteq> [] then '', '' else []) @ more"
    by (cases i) (auto simp: bind_Inr_iff)
  from Cons.IH [OF more] obtain ias where
    rest: "rest = map Var ias" and m: "more = comma_separated (map (param H) ias)"
    by blast
  have "ins = comma_separated (map (param H) (a # ias))"
    using ins ty m rest by (cases ias) (simp_all add: param_def)
  with i rest have "i # rest = map Var (a # ias) \<and>
      ins = comma_separated (map (param H) (a # ias))"
    by simp
  then show ?case
    by (rule exI [of _ "a # ias"])
qed

lemma print_outputs_params:
  "print_outputs H outputs = Inr outs \<Longrightarrow>
   \<exists>oas. outputs = map Var oas \<and> outs = concat (map (\<lambda>a. '', '' @ param H a) oas)"
proof (induction outputs arbitrary: outs)
  case Nil
  then show ?case by simp
next
  case (Cons out rest)
  from Cons.prems obtain a ty more where out: "out = Var a"
    and ty: "to_c_type (type (H a)) (is_ptr (H a)) = Inr ty"
    and more: "print_outputs H rest = Inr more"
    and outs: "outs = '', '' @ ty @ '' '' @ name (H a) @ more"
    by (cases out) (auto simp: bind_Inr_iff)
  from Cons.IH [OF more] obtain oas where
    rest: "rest = map Var oas" and m: "more = concat (map (\<lambda>a. '', '' @ param H a) oas)"
    by blast
  have "outs = concat (map (\<lambda>a. '', '' @ param H a) (a # oas))"
    using outs ty m by (simp add: param_def)
  with out rest have "out # rest = map Var (a # oas) \<and>
      outs = concat (map (\<lambda>a. '', '' @ param H a) (a # oas))"
    by simp
  then show ?case
    by (rule exI [of _ "a # oas"])
qed

text \<open>The first block of a function: the declaration lines, the statements as the reference
  printer prints them, and the return statement.\<close>

lemma visit_first_Block:
  assumes "visit P H (Block contents) st = Inr (t, st')"
    and "func_block st" and "no_Functions contents"
  shows "\<exists>inner.
      print_nested_contents P H (var_map st) (indent st + 1) contents = Inr inner \<and>
      t = func_decls st @ inner @ do_indent (indent st + 1) @ ''return 0;\<newline>'' \<and>
      st' = st\<lparr>func_block := False\<rparr>"
proof -
  define st1 where "st1 = st\<lparr>func_block := False, indent := indent st + 1\<rparr>"
  have nested: "visit_contents P H contents st1 =
      bind (print_nested_contents P H (var_map st) (indent st + 1) contents) (\<lambda>t. Inr (t, st1))"
    using visit_nested(2) [OF assms(3), of st1 P H] by (simp add: st1_def)
  from assms(1,2) obtain inner st3 where
    inner: "visit_contents P H contents st1 = Inr (inner, st3)"
    and t: "t = func_decls st @ inner @ do_indent (indent st3) @ ''return 0;\<newline>''"
    and st': "st' = st3\<lparr>indent := indent st3 - 1\<rparr>"
    by (auto simp: bind_Inr_iff Let_def st1_def)
  from inner nested have pn: "print_nested_contents P H (var_map st) (indent st + 1) contents = Inr inner"
    and st3: "st3 = st1"
    by (auto simp: bind_Inr_iff)
  have "st' = st\<lparr>func_block := False\<rparr>"
    using st' st3 by (cases st) (simp add: st1_def)
  moreover have "t = func_decls st @ inner @ do_indent (indent st + 1) @ ''return 0;\<newline>''"
    using t st3 by (simp add: st1_def)
  ultimately show ?thesis
    using pn by blast
qed

lemma visit_expr_Var: "visit_expr P H vm (Var a) = Inr n \<longleftrightarrow> map_of vm a = Some n"
  by (simp split: option.splits)

lemma visit_For_not_Vectorized:
  "kind \<noteq> Vectorized \<Longrightarrow>
   visit P H (For var start end' increment kind vec_width contents) st =
   visit P H (For var start end' increment Serial w contents) st"
  by (simp add: loop_pragma_def)

lemma visit_For_header:
  assumes "visit P H (For var start end' increment kind vec_width contents) st = Inr (emitted, st')"
    and "kind \<noteq> Vectorized"
  shows "\<exists>v s e i rest.
      visit_expr P H (var_map st) var = Inr v \<and> visit_expr P H (var_map st) start = Inr s \<and>
      visit_expr P H (var_map st) end' = Inr e \<and> visit_expr P H (var_map st) increment = Inr i \<and>
      emitted = do_indent (indent st) @ ''for ('' @ v @ ''='' @ s @ ''; '' @ v @ ''<'' @ e @ ''; '' @
             v @ ''+='' @ i @ '')\<newline>'' @ do_indent (indent st) @ ''{\<newline>'' @ rest"
proof -
  from assms obtain header rest where
    h: "for_header P H (var_map st) (indent st) var start end' increment = Inr header"
    and t: "emitted = header @ rest"
    by (auto simp: bind_Inr_iff loop_pragma_def)
  from h obtain v s e i where
    "visit_expr P H (var_map st) var = Inr v" and "visit_expr P H (var_map st) start = Inr s"
    and "visit_expr P H (var_map st) end' = Inr e"
    and "visit_expr P H (var_map st) increment = Inr i"
    and "header = do_indent (indent st) @ ''for ('' @ v @ ''='' @ s @ ''; '' @ v @ ''<'' @ e @
             ''; '' @ v @ ''+='' @ i @ '')\<newline>'' @ do_indent (indent st) @ ''{\<newline>''"
    by (auto simp: for_header_def bind_Inr_iff)
  with t show ?thesis
    by simp
qed

lemmas eval_simps =
  FindVars_def FindVars_visit_Var_def gen_unique_name_def map_count_def
  show_int_def show_nat.simps to_c_type_def sample_vars_def sample_printer_def
  for_header_def while_header_def loop_body.simps loop_pragma_def gen_vectorize_pragma_def
  do_indent_def CodeGen_C_new_def sample_state_def Let_def decl_line_def declared_def
  numeral_2_eq_2

subsection \<open>Variable names\<close>

text \<open>
  Claim C1, as the code has it.  Take a \<^verbatim>\<open>Function\<close> whose body holds no nested \<^verbatim>\<open>Function\<close>.
  The printer is left with the renaming map of this function and with the counter the
  walk of \<^verbatim>\<open>FindVars\<close> ended with.  The emitted text is the signature, in which each input and
  each output stands under its source name verbatim, the opening brace, the text of the body
  printed from that map, and the closing brace; printing the body changes no member of the
  printer but \<^verbatim>\<open>func_block\<close>.  When the body is a block and the printer is at function entry,
  the text of the body is the declaration lines, one for each internal var under its name
  in the map, then the statements as the reference printer prints them from the names of
  the map, then the return statement.

  In the map each input and output has its source name verbatim.  Every other \<^verbatim>\<open>Var\<close>
  reachable in the body has \<^verbatim>\<open>"_" + name + "_" + counter\<close>, for a value the counter took
  during this function.  The names of two of these other vars are distinct whenever
  their identities are.  The name of one of them differs from the name of an input or
  output, unless the source name of that input or output is itself
  \<^verbatim>\<open>"_" + name + "_" + counter\<close> for the name of the other var; so it differs whenever the two
  source names are equal.  Two inputs or outputs have the same name in the map exactly
  when their source names are equal.  The map is a function of the identity, and it does
  not change while statements that hold no \<^verbatim>\<open>Function\<close> are printed: the same identity
  always prints as the same name.
\<close>

theorem Function_renaming:
  assumes "visit P H (Function fname inputs outputs body) st = Inr (emitted, st')"
    and "no_Function body"
  shows "\<exists>ias oas vm counter' body_text b.
     inputs = map Var ias \<and> outputs = map Var oas \<and>
     st' = st\<lparr>var_map := vm, unique_name_counter := counter', func_block := True,
              func_decls := []\<rparr> \<and>
     emitted =
       ''int '' @ fname @ ''('' @ comma_separated (map (param H) ias) @
       concat (map (\<lambda>a. '', '' @ param H a) oas) @ '') '' @ do_indent (indent st) @ ''{\<newline>'' @
       body_text @ do_indent (indent st) @ ''}\<newline>'' \<and>
     visit P H body
       (st\<lparr>var_map := vm, unique_name_counter := counter',
           func_decls := concat (map (decl_line H) (declared vm inputs outputs))\<rparr>) =
       Inr (body_text,
            st\<lparr>var_map := vm, unique_name_counter := counter',
               func_decls := concat (map (decl_line H) (declared vm inputs outputs)),
               func_block := b\<rparr>) \<and>
     (func_block st \<longrightarrow> (\<forall>contents. body = Block contents \<longrightarrow>
        (\<exists>inner. print_nested_contents P H vm (indent st + 1) contents = Inr inner \<and>
           body_text = concat (map (decl_line H) (declared vm inputs outputs)) @ inner @
             do_indent (indent st + 1) @ ''return 0;\<newline>''))) \<and>
     (\<forall>a. Var a \<in> set inputs \<union> set outputs \<longrightarrow>
        visit_expr P H vm (Var a) = Inr (name (H a))) \<and>
     (\<forall>a \<in> set (vars_stmt body). Var a \<notin> set inputs \<union> set outputs \<longrightarrow>
        (\<exists>k. unique_name_counter st \<le> k \<and> k < counter' \<and>
             visit_expr P H vm (Var a) = Inr (''_'' @ name (H a) @ ''_'' @ show_int k))) \<and>
     (\<forall>a \<in> set (vars_stmt body). \<forall>b \<in> set (vars_stmt body).
        Var a \<notin> set inputs \<union> set outputs \<longrightarrow> Var b \<notin> set inputs \<union> set outputs \<longrightarrow>
        a \<noteq> b \<longrightarrow>
        visit_expr P H vm (Var a) \<noteq> visit_expr P H vm (Var b)) \<and>
     (\<forall>a \<in> set (vars_stmt body). \<forall>b.
        Var a \<notin> set inputs \<union> set outputs \<longrightarrow> Var b \<in> set inputs \<union> set outputs \<longrightarrow>
        (name (H a) = name (H b) \<or>
         (\<forall>k. unique_name_counter st \<le> k \<longrightarrow> k < counter' \<longrightarrow>
              name (H b) \<noteq> ''_'' @ name (H a) @ ''_'' @ show_int k)) \<longrightarrow>
        visit_expr P H vm (Var a) \<noteq> visit_expr P H vm (Var b)) \<and>
     (\<forall>a b. Var a \<in> set inputs \<union> set outputs \<longrightarrow> Var b \<in> set inputs \<union> set outputs \<longrightarrow>
        (visit_expr P H vm (Var a) = visit_expr P H vm (Var b)) = (name (H a) = name (H b))) \<and>
     (\<forall>s sa t sb. no_Function s \<longrightarrow> visit P H s sa = Inr (t, sb) \<longrightarrow> var_map sb = var_map sa)"
proof -
  from assms(1) obtain vm0 vm counter' decls ins outs body_text st2 where
    fv: "FindVars H inputs outputs = Inr vm0"
    and walk: "FindVars_visit H body (vm0, unique_name_counter st) = Inr (vm, counter')"
    and decls: "print_decls H vm inputs outputs = Inr decls"
    and ins: "print_inputs H inputs = Inr ins"
    and outs: "print_outputs H outputs = Inr outs"
    and body: "visit P H body
        (st\<lparr>var_map := vm, unique_name_counter := counter', func_decls := decls\<rparr>) =
        Inr (body_text, st2)"
    and shape: "emitted = ''int '' @ fname @ ''('' @ ins @ outs @ '') '' @ do_indent (indent st) @
        ''{\<newline>'' @ body_text @ do_indent (indent st2) @ ''}\<newline>''"
    and st': "st' = st2\<lparr>func_block := True, func_decls := []\<rparr>"
    by (auto simp: bind_Inr_iff)
  let ?io = "set inputs \<union> set outputs"
  let ?gen = "\<lambda>a k. ''_'' @ name (H a) @ ''_'' @ show_int k"
  let ?D = "concat (map (decl_line H) (declared vm inputs outputs))"
  have D: "decls = ?D"
    by (rule print_decls_lines [OF decls])
  from print_inputs_params [OF ins] obtain ias where
    ias: "inputs = map Var ias" "ins = comma_separated (map (param H) ias)"
    by blast
  from print_outputs_params [OF outs] obtain oas where
    oas: "outputs = map Var oas" "outs = concat (map (\<lambda>a. '', '' @ param H a) oas)"
    by blast
  from visit_frame(1) [OF assms(2) body] obtain b where
    st2: "st2 = st\<lparr>var_map := vm, unique_name_counter := counter', func_decls := decls,
                   func_block := b\<rparr>"
    by (cases st) auto
  have A: "st' = st\<lparr>var_map := vm, unique_name_counter := counter', func_block := True,
              func_decls := []\<rparr>"
    using st' st2 by (cases st) simp
  have B: "emitted =
       ''int '' @ fname @ ''('' @ comma_separated (map (param H) ias) @
       concat (map (\<lambda>a. '', '' @ param H a) oas) @ '') '' @ do_indent (indent st) @ ''{\<newline>'' @
       body_text @ do_indent (indent st) @ ''}\<newline>''"
    using shape st2 ias(2) oas(2) by simp
  have C: "visit P H body
       (st\<lparr>var_map := vm, unique_name_counter := counter', func_decls := ?D\<rparr>) =
       Inr (body_text,
            st\<lparr>var_map := vm, unique_name_counter := counter', func_decls := ?D,
               func_block := b\<rparr>)"
    using body st2 D by simp
  have E: "func_block st \<longrightarrow> (\<forall>contents. body = Block contents \<longrightarrow>
        (\<exists>inner. print_nested_contents P H vm (indent st + 1) contents = Inr inner \<and>
           body_text = ?D @ inner @ do_indent (indent st + 1) @ ''return 0;\<newline>''))"
  proof (intro impI allI)
    fix contents
    assume entry: "func_block st" and blk: "body = Block contents"
    from assms(2) blk have nf: "no_Functions contents"
      by simp
    from C blk have "visit P H (Block contents)
       (st\<lparr>var_map := vm, unique_name_counter := counter', func_decls := ?D\<rparr>) =
       Inr (body_text,
            st\<lparr>var_map := vm, unique_name_counter := counter', func_decls := ?D,
               func_block := b\<rparr>)"
      by simp
    from visit_first_Block [OF this _ nf] entry
    show "\<exists>inner. print_nested_contents P H vm (indent st + 1) contents = Inr inner \<and>
           body_text = ?D @ inner @ do_indent (indent st + 1) @ ''return 0;\<newline>''"
      by auto
  qed
  from walk have walk':
    "FindVars_visit_Vars H (vars_stmt body) (vm0, unique_name_counter st) = Inr (vm, counter')"
    by (simp add: FindVars_visit_Vars_stmt)
  note R = FindVars_visit_Vars_result [OF walk']
  from R have keep: "map_of vm0 a \<noteq> None \<Longrightarrow> map_of vm a = map_of vm0 a" for a
    by blast
  from R have fresh: "a \<in> set (vars_stmt body) \<Longrightarrow> map_of vm0 a = None \<Longrightarrow>
      \<exists>k. unique_name_counter st \<le> k \<and> k < counter' \<and> map_of vm a = Some (?gen a k)" for a
    by blast
  from R have inj: "a \<in> set (vars_stmt body) \<Longrightarrow> b \<in> set (vars_stmt body) \<Longrightarrow>
      map_of vm0 a = None \<Longrightarrow> map_of vm0 b = None \<Longrightarrow> map_of vm a = map_of vm b \<Longrightarrow> a = b" for a b
    by blast
  have io: "map_of vm a = Some (name (H a))" if "Var a \<in> ?io" for a
    using keep [of a] FindVars_result [OF fv, of a] that by simp
  have internal: "map_of vm0 a = None" if "Var a \<notin> ?io" for a
    using FindVars_result [OF fv, of a] that by simp
  have 1: "\<forall>a. Var a \<in> ?io \<longrightarrow> visit_expr P H vm (Var a) = Inr (name (H a))"
    using io by (simp add: visit_expr_Var)
  have 2: "\<forall>a \<in> set (vars_stmt body). Var a \<notin> ?io \<longrightarrow>
        (\<exists>k. unique_name_counter st \<le> k \<and> k < counter' \<and>
             visit_expr P H vm (Var a) = Inr (?gen a k))"
    unfolding visit_expr_Var using fresh internal by blast
  have 3: "\<forall>a \<in> set (vars_stmt body). \<forall>b \<in> set (vars_stmt body).
        Var a \<notin> ?io \<longrightarrow> Var b \<notin> ?io \<longrightarrow> a \<noteq> b \<longrightarrow>
        visit_expr P H vm (Var a) \<noteq> visit_expr P H vm (Var b)"
  proof (intro ballI impI notI)
    fix a b
    assume a: "a \<in> set (vars_stmt body)" "Var a \<notin> ?io"
      and b: "b \<in> set (vars_stmt body)" "Var b \<notin> ?io"
      and ne: "a \<noteq> b" and eq: "visit_expr P H vm (Var a) = visit_expr P H vm (Var b)"
    from fresh [OF a(1) internal [OF a(2)]] obtain k where ka: "map_of vm a = Some (?gen a k)"
      by blast
    then have "visit_expr P H vm (Var a) = Inr (?gen a k)"
      by (simp add: visit_expr_Var)
    with eq have "visit_expr P H vm (Var b) = Inr (?gen a k)"
      by simp
    then have "map_of vm b = Some (?gen a k)"
      by (simp only: visit_expr_Var)
    with ka have "map_of vm a = map_of vm b"
      by simp
    from inj [OF a(1) b(1) internal [OF a(2)] internal [OF b(2)] this] ne show False
      by simp
  qed
  have 4: "\<forall>a \<in> set (vars_stmt body). \<forall>b.
        Var a \<notin> ?io \<longrightarrow> Var b \<in> ?io \<longrightarrow>
        (name (H a) = name (H b) \<or>
         (\<forall>k. unique_name_counter st \<le> k \<longrightarrow> k < counter' \<longrightarrow> name (H b) \<noteq> ?gen a k)) \<longrightarrow>
        visit_expr P H vm (Var a) \<noteq> visit_expr P H vm (Var b)"
  proof (intro ballI allI impI notI)
    fix a b
    assume a: "a \<in> set (vars_stmt body)" "Var a \<notin> ?io" and b: "Var b \<in> ?io"
      and nm: "name (H a) = name (H b) \<or>
        (\<forall>k. unique_name_counter st \<le> k \<longrightarrow> k < counter' \<longrightarrow> name (H b) \<noteq> ?gen a k)"
      and eq: "visit_expr P H vm (Var a) = visit_expr P H vm (Var b)"
    from fresh [OF a(1) internal [OF a(2)]] obtain k where
      k: "unique_name_counter st \<le> k" "k < counter'" and "map_of vm a = Some (?gen a k)"
      by blast
    then have "visit_expr P H vm (Var a) = Inr (?gen a k)"
      by (simp add: visit_expr_Var)
    moreover from io [OF b] have "visit_expr P H vm (Var b) = Inr (name (H b))"
      by (simp add: visit_expr_Var)
    ultimately have g: "?gen a k = name (H b)"
      using eq by simp
    from nm show False
    proof
      assume "name (H a) = name (H b)"
      with g have "?gen a k = name (H a)"
        by simp
      with generated_name_longer show False
        by blast
    next
      assume "\<forall>k. unique_name_counter st \<le> k \<longrightarrow> k < counter' \<longrightarrow> name (H b) \<noteq> ?gen a k"
      with k have "name (H b) \<noteq> ?gen a k"
        by blast
      with g show False
        by simp
    qed
  qed
  have 5: "\<forall>a b. Var a \<in> ?io \<longrightarrow> Var b \<in> ?io \<longrightarrow>
        (visit_expr P H vm (Var a) = visit_expr P H vm (Var b)) = (name (H a) = name (H b))"
  proof (intro allI impI)
    fix a b
    assume "Var a \<in> ?io" and "Var b \<in> ?io"
    with 1 have "visit_expr P H vm (Var a) = Inr (name (H a))"
      and "visit_expr P H vm (Var b) = Inr (name (H b))"
      by blast+
    then show "(visit_expr P H vm (Var a) = visit_expr P H vm (Var b)) = (name (H a) = name (H b))"
      by simp
  qed
  have 6: "\<forall>s sa t sb. no_Function s \<longrightarrow> visit P H s sa = Inr (t, sb) \<longrightarrow>
      var_map sb = var_map sa"
  proof (intro allI impI)
    fix s sa t sb
    assume "no_Function s" and "visit P H s sa = Inr (t, sb)"
    from visit_frame(1) [OF this] obtain b where "sb = sa\<lparr>func_block := b\<rparr>"
      by blast
    then show "var_map sb = var_map sa"
      by simp
  qed
  from ias(1) oas(1) A B C E 1 2 3 4 5 6 show ?thesis
    by blast
qed

theorem Function_renaming_witness:
  "visit sample_printer sample_vars
     (Function ''f'' [Var 0] [] (Block [StmtNode ''s'' [Var 2, Var 3, Var 2]])) CodeGen_C_new =
   Inr (''int f(int a) {\<newline>  int _t_0;\<newline>  int _t_1;\<newline>  s(_t_0_t_1_t_0);\<newline>  return 0;\<newline>}\<newline>'',
        CodeGen_C_new\<lparr>var_map := [(0, ''a''), (2, ''_t_0''), (3, ''_t_1'')],
                      unique_name_counter := 2\<rparr>)
   \<and> no_Function (Block [StmtNode ''s'' [Var 2, Var 3, Var 2]])
   \<and> visit_expr sample_printer sample_vars [(0, ''a''), (2, ''_t_0''), (3, ''_t_1'')] (Var 0) =
       Inr ''a''
   \<and> (\<exists>k. visit_expr sample_printer sample_vars [(0, ''a''), (2, ''_t_0''), (3, ''_t_1'')] (Var 2) =
            Inr (''_t_'' @ show_int k))
   \<and> (\<exists>k. visit_expr sample_printer sample_vars [(0, ''a''), (2, ''_t_0''), (3, ''_t_1'')] (Var 3) =
            Inr (''_t_'' @ show_int k))
   \<and> visit_expr sample_printer sample_vars [(0, ''a''), (2, ''_t_0''), (3, ''_t_1'')] (Var 2) \<noteq>
     visit_expr sample_printer sample_vars [(0, ''a''), (2, ''_t_0''), (3, ''_t_1'')] (Var 3)
   \<and> visit_expr sample_printer sample_vars [(0, ''a''), (2, ''_t_0''), (3, ''_t_1'')] (Var 2) \<noteq>
     visit_expr sample_printer sample_vars [(0, ''a''), (2, ''_t_0''), (3, ''_t_1'')] (Var 0)
   \<and> (\<exists>inner.
        print_nested_contents sample_printer sample_vars [(0, ''a''), (2, ''_t_0''), (3, ''_t_1'')] 1
          [StmtNode ''s'' [Var 2, Var 3, Var 2]] = Inr inner \<and>
        ''int f(int a) {\<newline>  int _t_0;\<newline>  int _t_1;\<newline>  s(_t_0_t_1_t_0);\<newline>  return 0;\<newline>}\<newline>'' =
        ''int f(int a) {\<newline>'' @ ''  int _t_0;\<newline>  int _t_1;\<newline>'' @ inner @ ''  return 0;\<newline>'' @ ''}\<newline>'')"
proof -
  let ?body = "Block [StmtNode ''s'' [Var 2, Var 3, Var 2]]"
  let ?vm = "[(0, ''a''), (2, ''_t_0''), (3, ''_t_1'')] :: var_map"
  let ?out = "''int f(int a) {\<newline>  int _t_0;\<newline>  int _t_1;\<newline>  s(_t_0_t_1_t_0);\<newline>  return 0;\<newline>}\<newline>''"
  have ev: "visit sample_printer sample_vars (Function ''f'' [Var 0] [] ?body) CodeGen_C_new =
     Inr (?out, CodeGen_C_new\<lparr>var_map := ?vm, unique_name_counter := 2\<rparr>)"
    by (simp add: eval_simps)
  have nf: "no_Function ?body"
    by simp
  from Function_renaming [OF ev nf] obtain ias oas vm counter' body_text b where
    ias: "[Var 0] = map Var ias" and oas: "[] = map Var oas"
    and final: "CodeGen_C_new\<lparr>var_map := ?vm, unique_name_counter := 2\<rparr> =
        CodeGen_C_new\<lparr>var_map := vm, unique_name_counter := counter', func_block := True,
                      func_decls := []\<rparr>"
    and shape: "?out =
       ''int '' @ ''f'' @ ''('' @ comma_separated (map (param sample_vars) ias) @
       concat (map (\<lambda>a. '', '' @ param sample_vars a) oas) @ '') '' @
       do_indent (indent CodeGen_C_new) @ ''{\<newline>'' @
       body_text @ do_indent (indent CodeGen_C_new) @ ''}\<newline>''"
    and first: "func_block CodeGen_C_new \<longrightarrow> (\<forall>contents. ?body = Block contents \<longrightarrow>
        (\<exists>inner. print_nested_contents sample_printer sample_vars vm (indent CodeGen_C_new + 1)
             contents = Inr inner \<and>
           body_text = concat (map (decl_line sample_vars) (declared vm [Var 0] [])) @ inner @
             do_indent (indent CodeGen_C_new + 1) @ ''return 0;\<newline>''))"
    and io: "\<forall>a. Var a \<in> set [Var 0] \<union> set [] \<longrightarrow>
        visit_expr sample_printer sample_vars vm (Var a) = Inr (name (sample_vars a))"
    and gen: "\<forall>a \<in> set (vars_stmt ?body). Var a \<notin> set [Var 0] \<union> set [] \<longrightarrow>
        (\<exists>k. unique_name_counter CodeGen_C_new \<le> k \<and> k < counter' \<and>
             visit_expr sample_printer sample_vars vm (Var a) =
               Inr (''_'' @ name (sample_vars a) @ ''_'' @ show_int k))"
    and inj: "\<forall>a \<in> set (vars_stmt ?body). \<forall>b \<in> set (vars_stmt ?body).
        Var a \<notin> set [Var 0] \<union> set [] \<longrightarrow> Var b \<notin> set [Var 0] \<union> set [] \<longrightarrow> a \<noteq> b \<longrightarrow>
        visit_expr sample_printer sample_vars vm (Var a) \<noteq>
        visit_expr sample_printer sample_vars vm (Var b)"
    and apart: "\<forall>a \<in> set (vars_stmt ?body). \<forall>b.
        Var a \<notin> set [Var 0] \<union> set [] \<longrightarrow> Var b \<in> set [Var 0] \<union> set [] \<longrightarrow>
        (name (sample_vars a) = name (sample_vars b) \<or>
         (\<forall>k. unique_name_counter CodeGen_C_new \<le> k \<longrightarrow> k < counter' \<longrightarrow>
              name (sample_vars b) \<noteq> ''_'' @ name (sample_vars a) @ ''_'' @ show_int k)) \<longrightarrow>
        visit_expr sample_printer sample_vars vm (Var a) \<noteq>
        visit_expr sample_printer sample_vars vm (Var b)"
    by (elim exE conjE) (rule that, assumption+)
  from final have vm: "vm = ?vm"
    by (simp add: CodeGen_C_new_def)
  have names: "name (sample_vars 0) = ''a''" "name (sample_vars 2) = ''t''"
    "name (sample_vars 3) = ''t''"
    by (simp_all add: sample_vars_def)
  have reached: "2 \<in> set (vars_stmt ?body)" "3 \<in> set (vars_stmt ?body)"
    by simp_all
  have others: "Var 2 \<notin> set [Var 0] \<union> set []" "Var 3 \<notin> set [Var 0] \<union> set []"
    by simp_all
  have input: "Var 0 \<in> set [Var 0] \<union> set []"
    by simp
  from io input have "visit_expr sample_printer sample_vars vm (Var 0) = Inr (name (sample_vars 0))"
    by blast
  then have v0: "visit_expr sample_printer sample_vars ?vm (Var 0) = Inr ''a''"
    by (simp only: names vm)
  from gen reached(1) others(1) obtain k2 where
    "visit_expr sample_printer sample_vars vm (Var 2) =
       Inr (''_'' @ name (sample_vars 2) @ ''_'' @ show_int k2)"
    by blast
  then have "visit_expr sample_printer sample_vars ?vm (Var 2) = Inr (''_t_'' @ show_int k2)"
    by (simp only: names vm append_Cons append_Nil)
  then have v2: "\<exists>k. visit_expr sample_printer sample_vars ?vm (Var 2) = Inr (''_t_'' @ show_int k)" ..
  from gen reached(2) others(2) obtain k3 where
    "visit_expr sample_printer sample_vars vm (Var 3) =
       Inr (''_'' @ name (sample_vars 3) @ ''_'' @ show_int k3)"
    by blast
  then have "visit_expr sample_printer sample_vars ?vm (Var 3) = Inr (''_t_'' @ show_int k3)"
    by (simp only: names vm append_Cons append_Nil)
  then have v3: "\<exists>k. visit_expr sample_printer sample_vars ?vm (Var 3) = Inr (''_t_'' @ show_int k)" ..
  have "(2::nat) \<noteq> 3"
    by simp
  with inj reached others
  have "visit_expr sample_printer sample_vars vm (Var 2) \<noteq>
      visit_expr sample_printer sample_vars vm (Var 3)"
    by blast
  then have v23: "visit_expr sample_printer sample_vars ?vm (Var 2) \<noteq>
      visit_expr sample_printer sample_vars ?vm (Var 3)"
    unfolding vm .
  have "\<forall>k. unique_name_counter CodeGen_C_new \<le> k \<longrightarrow> k < counter' \<longrightarrow>
      name (sample_vars 0) \<noteq> ''_'' @ name (sample_vars 2) @ ''_'' @ show_int k"
    by (simp add: names)
  with apart reached(1) others(1) input
  have "visit_expr sample_printer sample_vars vm (Var 2) \<noteq>
      visit_expr sample_printer sample_vars vm (Var 0)"
    by blast
  then have v20: "visit_expr sample_printer sample_vars ?vm (Var 2) \<noteq>
      visit_expr sample_printer sample_vars ?vm (Var 0)"
    unfolding vm .
  have entry: "func_block CodeGen_C_new"
    by (simp add: CodeGen_C_new_def)
  from first entry obtain inner where
    inner: "print_nested_contents sample_printer sample_vars vm (indent CodeGen_C_new + 1)
             [StmtNode ''s'' [Var 2, Var 3, Var 2]] = Inr inner"
    and body_text: "body_text = concat (map (decl_line sample_vars) (declared vm [Var 0] [])) @
        inner @ do_indent (indent CodeGen_C_new + 1) @ ''return 0;\<newline>''"
    by blast
  from ias oas have "ias = [0]" and "oas = []"
    by auto
  with shape body_text have "?out =
      ''int f(int a) {\<newline>'' @ ''  int _t_0;\<newline>  int _t_1;\<newline>'' @ inner @ ''  return 0;\<newline>'' @ ''}\<newline>''"
    by (simp add: vm param_def eval_simps)
  moreover from inner have "print_nested_contents sample_printer sample_vars ?vm 1
             [StmtNode ''s'' [Var 2, Var 3, Var 2]] = Inr inner"
    by (simp only: vm) (simp add: CodeGen_C_new_def)
  ultimately have v5: "\<exists>inner.
        print_nested_contents sample_printer sample_vars ?vm 1
          [StmtNode ''s'' [Var 2, Var 3, Var 2]] = Inr inner \<and>
        ?out = ''int f(int a) {\<newline>'' @ ''  int _t_0;\<newline>  int _t_1;\<newline>'' @ inner @ ''  return 0;\<newline>'' @ ''}\<newline>''"
    by blast
  show ?thesis
    by (intro conjI) (rule ev, rule nf, rule v0, rule v2, rule v3, rule v23, rule v20, rule v5)
qed

text \<open>
  Claim C1 as stated fails, in three ways.  Two inputs that are different \<^verbatim>\<open>Var\<close> nodes with
  the same source name pass the duplicate check, which compares identities, and print
  alike.  An input whose source name is \<^verbatim>\<open>_t_0\<close> and an internal var \<^verbatim>\<open>t\<close> that gets the counter
  value 0 print alike.  In a function whose body holds a nested \<^verbatim>\<open>Function\<close>, the statements
  after the nested function are printed from the map of the nested function: the same
  \<^verbatim>\<open>Var\<close> prints as \<^verbatim>\<open>_t_0\<close> before it and as \<^verbatim>\<open>_t_1\<close> after it.
\<close>

theorem emitted_names_collide:
  "(0::nat) \<noteq> 1 \<and> name (sample_vars 0) = name (sample_vars 1)
   \<and> visit sample_printer sample_vars
       (Function ''f'' [Var 0, Var 1] [] (Block [StmtNode ''s'' [Var 0, Var 1]])) CodeGen_C_new =
     Inr (''int f(int a, double* a) {\<newline>  s(aa);\<newline>  return 0;\<newline>}\<newline>'',
          CodeGen_C_new\<lparr>var_map := [(0, ''a''), (1, ''a'')]\<rparr>)
   \<and> visit_expr sample_printer sample_vars [(0, ''a''), (1, ''a'')] (Var 0) =
     visit_expr sample_printer sample_vars [(0, ''a''), (1, ''a'')] (Var 1)
   \<and> (0::nat) \<noteq> 2 \<and> name (underscore_vars 0) \<noteq> name (underscore_vars 2)
   \<and> visit sample_printer underscore_vars
       (Function ''f'' [Var 0] [] (Block [StmtNode ''s'' [Var 0, Var 2]])) CodeGen_C_new =
     Inr (''int f(int _t_0) {\<newline>  int _t_0;\<newline>  s(_t_0_t_0);\<newline>  return 0;\<newline>}\<newline>'',
          CodeGen_C_new\<lparr>var_map := [(0, ''_t_0''), (2, ''_t_0'')], unique_name_counter := 1\<rparr>)
   \<and> visit_expr sample_printer underscore_vars [(0, ''_t_0''), (2, ''_t_0'')] (Var 0) =
     visit_expr sample_printer underscore_vars [(0, ''_t_0''), (2, ''_t_0'')] (Var 2)
   \<and> visit sample_printer sample_vars
       (Function ''f'' [] []
          (Block [StmtNode ''s'' [Var 2],
                  Function ''g'' [] [] (Block [StmtNode ''s'' [Var 2]]),
                  StmtNode ''s'' [Var 2]])) CodeGen_C_new =
     Inr (''int f() {\<newline>  int _t_0;\<newline>  s(_t_0);\<newline>int g()   {\<newline>    s(_t_1);\<newline>  }\<newline>\<newline>  s(_t_1);\<newline>  return 0;\<newline>}\<newline>'',
          CodeGen_C_new\<lparr>var_map := [(2, ''_t_1'')], unique_name_counter := 2\<rparr>)"
  by (simp add: eval_simps underscore_vars_def)

subsection \<open>Declarations and the return statement\<close>

text \<open>
  Claim C2, the function whose body is a block.  Take a \<^verbatim>\<open>Function\<close> whose body is a \<^verbatim>\<open>Block\<close>
  that holds no \<^verbatim>\<open>Function\<close> node, printed by a printer at function entry (\<^verbatim>\<open>func_block\<close> is
  set, as it is in a new printer and after every printed \<^verbatim>\<open>Function\<close>).  The emitted text is
  the signature and the opening brace; then the declarations, one line for each entry of the
  renaming map that is neither an input nor an output; then the statements of the body,
  printed as the reference printer prints them, so that every nested block is printed
  without the declarations and without the return statement; then the line
  \<^verbatim>\<open>return 0;\<close> and the closing brace.  The declarations and the return statement are so
  emitted once, at the top level of the function body.
\<close>

lemma Function_entry_once:
  assumes "visit P H (Function fname inputs outputs (Block contents)) st = Inr (emitted, st')"
    and "func_block st" and "no_Functions contents"
  shows "\<exists>vm0 vm counter' ins outs body_text.
      FindVars H inputs outputs = Inr vm0 \<and>
      FindVars_visit H (Block contents) (vm0, unique_name_counter st) = Inr (vm, counter') \<and>
      print_inputs H inputs = Inr ins \<and> print_outputs H outputs = Inr outs \<and>
      print_nested_contents P H vm (indent st + 1) contents = Inr body_text \<and>
      emitted =
        ''int '' @ fname @ ''('' @ ins @ outs @ '') '' @ do_indent (indent st) @ ''{\<newline>'' @
        concat (map (decl_line H) (declared vm inputs outputs)) @
        body_text @
        do_indent (indent st + 1) @ ''return 0;\<newline>'' @
        do_indent (indent st) @ ''}\<newline>'' \<and>
      st' = st\<lparr>var_map := vm, unique_name_counter := counter', func_decls := []\<rparr>"
proof -
  from assms(1) obtain vm0 vm counter' decls ins outs body_text st2 where
    fv: "FindVars H inputs outputs = Inr vm0"
    and walk: "FindVars_visit H (Block contents) (vm0, unique_name_counter st) = Inr (vm, counter')"
    and decls: "print_decls H vm inputs outputs = Inr decls"
    and ins: "print_inputs H inputs = Inr ins"
    and outs: "print_outputs H outputs = Inr outs"
    and body: "visit P H (Block contents)
        (st\<lparr>var_map := vm, unique_name_counter := counter', func_decls := decls\<rparr>) =
        Inr (body_text, st2)"
    and shape: "emitted = ''int '' @ fname @ ''('' @ ins @ outs @ '') '' @ do_indent (indent st) @
        ''{\<newline>'' @ body_text @ do_indent (indent st2) @ ''}\<newline>''"
    and st': "st' = st2\<lparr>func_block := True, func_decls := []\<rparr>"
    by (auto simp: bind_Inr_iff)
  define st1 where
    "st1 = st\<lparr>var_map := vm, unique_name_counter := counter', func_decls := decls,
              func_block := False, indent := indent st + 1\<rparr>"
  have nested: "visit_contents P H contents st1 =
      bind (print_nested_contents P H vm (indent st + 1) contents) (\<lambda>t. Inr (t, st1))"
    using visit_nested(2) [OF assms(3), of st1 P H] by (simp add: st1_def)
  from body assms(2) obtain inner st3 where
    inner: "visit_contents P H contents st1 = Inr (inner, st3)"
    and body_text: "body_text = decls @ inner @ do_indent (indent st3) @ ''return 0;\<newline>''"
    and st2: "st2 = st3\<lparr>indent := indent st3 - 1\<rparr>"
    by (auto simp: bind_Inr_iff Let_def st1_def)
  from inner nested have pn: "print_nested_contents P H vm (indent st + 1) contents = Inr inner"
    and st3: "st3 = st1"
    by (auto simp: bind_Inr_iff)
  have "st' = st\<lparr>var_map := vm, unique_name_counter := counter', func_decls := []\<rparr>"
    using st' st2 st3 assms(2) by (cases st) (simp add: st1_def)
  moreover have "emitted =
        ''int '' @ fname @ ''('' @ ins @ outs @ '') '' @ do_indent (indent st) @ ''{\<newline>'' @
        concat (map (decl_line H) (declared vm inputs outputs)) @
        inner @
        do_indent (indent st + 1) @ ''return 0;\<newline>'' @
        do_indent (indent st) @ ''}\<newline>''"
    using shape body_text st2 st3 print_decls_lines [OF decls] by (simp add: st1_def)
  ultimately show ?thesis
    using fv walk ins outs pn by blast
qed

lemma Function_entry_once_example:
  "visit sample_printer sample_vars
     (Function ''f'' [Var 0] []
        (Block [For (Var 2) (Var 0) (Var 0) (Var 0) Serial 0 (Block [StmtNode ''s'' [Var 2]])]))
     CodeGen_C_new =
   Inr (''int f(int a) {\<newline>  int _t_0;\<newline>  for (_t_0=a; _t_0<a; _t_0+=a)\<newline>  {\<newline>    s(_t_0);\<newline>  }\<newline>  return 0;\<newline>}\<newline>'',
        CodeGen_C_new\<lparr>var_map := [(0, ''a''), (2, ''_t_0'')], unique_name_counter := 1\<rparr>)
   \<and> func_block CodeGen_C_new
   \<and> no_Functions [For (Var 2) (Var 0) (Var 0) (Var 0) Serial 0 (Block [StmtNode ''s'' [Var 2]])]
   \<and> (\<exists>vm0 vm counter' ins outs body_text.
        FindVars sample_vars [Var 0] [] = Inr vm0 \<and>
        FindVars_visit sample_vars (Block [For (Var 2) (Var 0) (Var 0) (Var 0) Serial 0 (Block [StmtNode ''s'' [Var 2]])])
          (vm0, unique_name_counter CodeGen_C_new) = Inr (vm, counter') \<and>
        print_inputs sample_vars [Var 0] = Inr ins \<and> print_outputs sample_vars [] = Inr outs \<and>
        print_nested_contents sample_printer sample_vars vm (indent CodeGen_C_new + 1)
          [For (Var 2) (Var 0) (Var 0) (Var 0) Serial 0 (Block [StmtNode ''s'' [Var 2]])] = Inr body_text \<and>
        ''int f(int a) {\<newline>  int _t_0;\<newline>  for (_t_0=a; _t_0<a; _t_0+=a)\<newline>  {\<newline>    s(_t_0);\<newline>  }\<newline>  return 0;\<newline>}\<newline>'' =
          ''int '' @ ''f'' @ ''('' @ ins @ outs @ '') '' @ do_indent (indent CodeGen_C_new) @
          ''{\<newline>'' @
          concat (map (decl_line sample_vars) (declared vm [Var 0] [])) @
          body_text @
          do_indent (indent CodeGen_C_new + 1) @ ''return 0;\<newline>'' @
          do_indent (indent CodeGen_C_new) @ ''}\<newline>'' \<and>
        CodeGen_C_new\<lparr>var_map := [(0, ''a''), (2, ''_t_0'')], unique_name_counter := 1\<rparr> =
          CodeGen_C_new\<lparr>var_map := vm, unique_name_counter := counter', func_decls := []\<rparr>)"
proof -
  have ev: "visit sample_printer sample_vars
     (Function ''f'' [Var 0] []
        (Block [For (Var 2) (Var 0) (Var 0) (Var 0) Serial 0 (Block [StmtNode ''s'' [Var 2]])]))
     CodeGen_C_new =
   Inr (''int f(int a) {\<newline>  int _t_0;\<newline>  for (_t_0=a; _t_0<a; _t_0+=a)\<newline>  {\<newline>    s(_t_0);\<newline>  }\<newline>  return 0;\<newline>}\<newline>'',
        CodeGen_C_new\<lparr>var_map := [(0, ''a''), (2, ''_t_0'')], unique_name_counter := 1\<rparr>)"
    by (simp add: eval_simps)
  have entry: "func_block CodeGen_C_new"
    by (simp add: CodeGen_C_new_def)
  have flat: "no_Functions [For (Var 2) (Var 0) (Var 0) (Var 0) Serial 0 (Block [StmtNode ''s'' [Var 2]])]"
    by simp
  note once = Function_entry_once [OF ev entry flat]
  show ?thesis
    by (intro conjI) (rule ev, rule entry, rule flat, rule once)
qed

text \<open>
  Claim C2, the function whose body is not a block.  \<^verbatim>\<open>CodeGen_C::visit(const Function*)\<close>
  collects the declarations and leaves it to the first \<^verbatim>\<open>Block\<close> that is visited to print
  them and the return statement.  When the body of the function is a loop, the block
  nested in the loop is that first block: the declaration of the loop variable is printed
  inside the loop, after the loop header has used the variable, and \<^verbatim>\<open>return 0;\<close> is printed
  inside the loop and not before the closing brace of the function; the reference printer
  prints neither in the nested block.  When the body holds no block at all, nothing is
  declared and no return statement is printed.
\<close>

theorem nested_Block_at_function_entry:
  "visit sample_printer sample_vars
     (Function ''f'' [Var 0] [] (For (Var 2) (Var 0) (Var 0) (Var 0) Serial 0 (Block [])))
     CodeGen_C_new =
   Inr (''int f(int a) {\<newline>for (_t_0=a; _t_0<a; _t_0+=a)\<newline>{\<newline>  int _t_0;\<newline>  return 0;\<newline>}\<newline>}\<newline>'',
        CodeGen_C_new\<lparr>var_map := [(0, ''a''), (2, ''_t_0'')], unique_name_counter := 1\<rparr>)
   \<and> print_nested sample_printer sample_vars [(0, ''a''), (2, ''_t_0'')] 0
       (For (Var 2) (Var 0) (Var 0) (Var 0) Serial 0 (Block [])) =
     Inr ''for (_t_0=a; _t_0<a; _t_0+=a)\<newline>{\<newline>}\<newline>''
   \<and> visit sample_printer sample_vars
       (Function ''f'' [Var 0] [] (StmtNode ''s'' [Var 2])) CodeGen_C_new =
     Inr (''int f(int a) {\<newline>s(_t_0);}\<newline>'',
          CodeGen_C_new\<lparr>var_map := [(0, ''a''), (2, ''_t_0'')], unique_name_counter := 1\<rparr>)"
  by (simp add: eval_simps)

subsection \<open>Loops\<close>

text \<open>
  Claim C3.  For a \<^verbatim>\<open>For\<close> loop of kind \<^verbatim>\<open>Vectorized\<close> the printer emits the text of the same
  loop of kind \<^verbatim>\<open>Serial\<close>, preceded by one more line: the indentation and
  \<^verbatim>\<open>#pragma clang loop interleave(enable) vectorize(enable)\<close> when \<^verbatim>\<open>vec_width\<close> is 0,
  \<^verbatim>\<open>#pragma clang loop interleave(enable) vectorize_width(w)\<close> when \<^verbatim>\<open>vec_width\<close> is
  \<open>w \<noteq> 0\<close>.  The text of the \<^verbatim>\<open>Serial\<close> loop starts with the \<^verbatim>\<open>for\<close> header, so the pragma
  line immediately precedes the header.  For every other kind the loop prints as the
  \<^verbatim>\<open>Serial\<close> loop does, whatever \<^verbatim>\<open>vec_width\<close> is: no pragma is emitted.
\<close>

theorem For_vectorize_pragma:
  "visit P H (For var start end' increment Vectorized vec_width contents) st =
     bind (visit P H (For var start end' increment Serial vec_width contents) st)
       (\<lambda>(emitted, st').
          Inr (do_indent (indent st) @ ''#pragma clang loop interleave(enable) '' @
               (if vec_width = 0 then ''vectorize(enable)''
                else ''vectorize_width('' @ show_int vec_width @ '')'') @ ''\<newline>'' @ emitted,
               st'))
   \<and> (kind \<noteq> Vectorized \<longrightarrow>
        visit P H (For var start end' increment kind vec_width contents) st =
        visit P H (For var start end' increment Serial 0 contents) st)
   \<and> (\<forall>emitted st'.
        visit P H (For var start end' increment Serial 0 contents) st = Inr (emitted, st') \<longrightarrow>
        (\<exists>v s e i rest.
           visit_expr P H (var_map st) var = Inr v \<and> visit_expr P H (var_map st) start = Inr s \<and>
           visit_expr P H (var_map st) end' = Inr e \<and>
           visit_expr P H (var_map st) increment = Inr i \<and>
           emitted = do_indent (indent st) @ ''for ('' @ v @ ''='' @ s @ ''; '' @ v @ ''<'' @ e @
                  ''; '' @ v @ ''+='' @ i @ '')\<newline>'' @ do_indent (indent st) @ ''{\<newline>'' @ rest))"
proof -
  have 1: "visit P H (For var start end' increment Vectorized vec_width contents) st =
     bind (visit P H (For var start end' increment Serial vec_width contents) st)
       (\<lambda>(emitted, st').
          Inr (do_indent (indent st) @ ''#pragma clang loop interleave(enable) '' @
               (if vec_width = 0 then ''vectorize(enable)''
                else ''vectorize_width('' @ show_int vec_width @ '')'') @ ''\<newline>'' @ emitted,
               st'))"
    by (simp add: loop_pragma_def gen_vectorize_pragma_def bind_def split: sum.splits)
  have 2: "kind \<noteq> Vectorized \<longrightarrow>
        visit P H (For var start end' increment kind vec_width contents) st =
        visit P H (For var start end' increment Serial 0 contents) st"
    by (intro impI) (rule visit_For_not_Vectorized)
  have 3: "\<forall>emitted st'.
        visit P H (For var start end' increment Serial 0 contents) st = Inr (emitted, st') \<longrightarrow>
        (\<exists>v s e i rest.
           visit_expr P H (var_map st) var = Inr v \<and> visit_expr P H (var_map st) start = Inr s \<and>
           visit_expr P H (var_map st) end' = Inr e \<and>
           visit_expr P H (var_map st) increment = Inr i \<and>
           emitted = do_indent (indent st) @ ''for ('' @ v @ ''='' @ s @ ''; '' @ v @ ''<'' @ e @
                  ''; '' @ v @ ''+='' @ i @ '')\<newline>'' @ do_indent (indent st) @ ''{\<newline>'' @ rest)"
  proof (intro allI impI)
    fix emitted st'
    assume "visit P H (For var start end' increment Serial 0 contents) st = Inr (emitted, st')"
    moreover have "Serial \<noteq> Vectorized"
      by simp
    ultimately show "\<exists>v s e i rest.
           visit_expr P H (var_map st) var = Inr v \<and> visit_expr P H (var_map st) start = Inr s \<and>
           visit_expr P H (var_map st) end' = Inr e \<and>
           visit_expr P H (var_map st) increment = Inr i \<and>
           emitted = do_indent (indent st) @ ''for ('' @ v @ ''='' @ s @ ''; '' @ v @ ''<'' @ e @
                  ''; '' @ v @ ''+='' @ i @ '')\<newline>'' @ do_indent (indent st) @ ''{\<newline>'' @ rest"
      by (rule visit_For_header)
  qed
  show ?thesis
    by (intro conjI) (rule 1, rule 2, rule 3)
qed

theorem For_vectorize_pragma_witness:
  "visit sample_printer sample_vars (For (Var 0) (Var 0) (Var 0) (Var 0) Vectorized 8 (Block []))
     sample_state =
   Inr (''  #pragma clang loop interleave(enable) vectorize_width(8)\<newline>'' @
        ''  for (a=a; a<a; a+=a)\<newline>  {\<newline>  }\<newline>'', sample_state)
   \<and> visit sample_printer sample_vars (For (Var 0) (Var 0) (Var 0) (Var 0) Vectorized 0 (Block []))
     sample_state =
   Inr (''  #pragma clang loop interleave(enable) vectorize(enable)\<newline>'' @
        ''  for (a=a; a<a; a+=a)\<newline>  {\<newline>  }\<newline>'', sample_state)
   \<and> visit sample_printer sample_vars (For (Var 0) (Var 0) (Var 0) (Var 0) Reduction 8 (Block []))
     sample_state =
   Inr (''  for (a=a; a<a; a+=a)\<newline>  {\<newline>  }\<newline>'', sample_state)"
proof -
  have serial: "visit sample_printer sample_vars
      (For (Var 0) (Var 0) (Var 0) (Var 0) Serial w (Block [])) sample_state =
      Inr (''  for (a=a; a<a; a+=a)\<newline>  {\<newline>  }\<newline>'', sample_state)" for w
    by (simp add: eval_simps)
  have indented: "do_indent (indent sample_state) = ''  ''"
    by (simp add: sample_state_def do_indent_def)
  note pragma8 = For_vectorize_pragma [of sample_printer sample_vars "Var 0" "Var 0" "Var 0"
      "Var 0" 8 "Block []" sample_state Reduction]
  note pragma0 = For_vectorize_pragma [of sample_printer sample_vars "Var 0" "Var 0" "Var 0"
      "Var 0" 0 "Block []" sample_state Reduction]
  have 1: "visit sample_printer sample_vars
      (For (Var 0) (Var 0) (Var 0) (Var 0) Vectorized 8 (Block [])) sample_state =
     Inr (''  #pragma clang loop interleave(enable) vectorize_width(8)\<newline>'' @
        ''  for (a=a; a<a; a+=a)\<newline>  {\<newline>  }\<newline>'', sample_state)"
    unfolding pragma8 [THEN conjunct1] serial indented
    by (simp add: show_int_def show_nat.simps)
  have 2: "visit sample_printer sample_vars
      (For (Var 0) (Var 0) (Var 0) (Var 0) Vectorized 0 (Block [])) sample_state =
     Inr (''  #pragma clang loop interleave(enable) vectorize(enable)\<newline>'' @
        ''  for (a=a; a<a; a+=a)\<newline>  {\<newline>  }\<newline>'', sample_state)"
    unfolding pragma0 [THEN conjunct1] serial indented
    by simp
  have "Reduction \<noteq> Vectorized"
    by simp
  with pragma8 have "visit sample_printer sample_vars
      (For (Var 0) (Var 0) (Var 0) (Var 0) Reduction 8 (Block [])) sample_state =
      visit sample_printer sample_vars
      (For (Var 0) (Var 0) (Var 0) (Var 0) Serial 0 (Block [])) sample_state"
    by blast
  with 1 2 show ?thesis
    unfolding serial by blast
qed

text \<open>
  Claim C9.  A \<^verbatim>\<open>For\<close> loop of kind \<^verbatim>\<open>Parallel\<close> or \<^verbatim>\<open>Reduction\<close> prints exactly as the
  otherwise identical loop of kind \<^verbatim>\<open>Serial\<close> does: the same text or the same failure, and
  the same members afterwards.  The text starts with the plain header
  \<^verbatim>\<open>for (v=start; v<end; v+=increment)\<close>, with no pragma before it.
\<close>

theorem For_Parallel_Reduction_as_Serial:
  "visit P H (For var start end' increment Parallel vec_width contents) st =
     visit P H (For var start end' increment Serial vec_width contents) st
   \<and> visit P H (For var start end' increment Reduction vec_width contents) st =
     visit P H (For var start end' increment Serial vec_width contents) st
   \<and> (\<forall>kind emitted st'.
        kind = Parallel \<or> kind = Reduction \<or> kind = Serial \<longrightarrow>
        visit P H (For var start end' increment kind vec_width contents) st = Inr (emitted, st') \<longrightarrow>
        (\<exists>v s e i rest.
           visit_expr P H (var_map st) var = Inr v \<and> visit_expr P H (var_map st) start = Inr s \<and>
           visit_expr P H (var_map st) end' = Inr e \<and>
           visit_expr P H (var_map st) increment = Inr i \<and>
           emitted = do_indent (indent st) @ ''for ('' @ v @ ''='' @ s @ ''; '' @ v @ ''<'' @ e @
                  ''; '' @ v @ ''+='' @ i @ '')\<newline>'' @ do_indent (indent st) @ ''{\<newline>'' @ rest))"
proof -
  have 1: "visit P H (For var start end' increment Parallel vec_width contents) st =
     visit P H (For var start end' increment Serial vec_width contents) st"
    by (rule visit_For_not_Vectorized) simp
  have 2: "visit P H (For var start end' increment Reduction vec_width contents) st =
     visit P H (For var start end' increment Serial vec_width contents) st"
    by (rule visit_For_not_Vectorized) simp
  have 3: "\<forall>kind emitted st'.
        kind = Parallel \<or> kind = Reduction \<or> kind = Serial \<longrightarrow>
        visit P H (For var start end' increment kind vec_width contents) st = Inr (emitted, st') \<longrightarrow>
        (\<exists>v s e i rest.
           visit_expr P H (var_map st) var = Inr v \<and> visit_expr P H (var_map st) start = Inr s \<and>
           visit_expr P H (var_map st) end' = Inr e \<and>
           visit_expr P H (var_map st) increment = Inr i \<and>
           emitted = do_indent (indent st) @ ''for ('' @ v @ ''='' @ s @ ''; '' @ v @ ''<'' @ e @
                  ''; '' @ v @ ''+='' @ i @ '')\<newline>'' @ do_indent (indent st) @ ''{\<newline>'' @ rest)"
  proof (intro allI impI)
    fix kind emitted st'
    assume "kind = Parallel \<or> kind = Reduction \<or> kind = Serial"
    then have "kind \<noteq> Vectorized"
      by auto
    moreover
    assume "visit P H (For var start end' increment kind vec_width contents) st = Inr (emitted, st')"
    ultimately show "\<exists>v s e i rest.
           visit_expr P H (var_map st) var = Inr v \<and> visit_expr P H (var_map st) start = Inr s \<and>
           visit_expr P H (var_map st) end' = Inr e \<and>
           visit_expr P H (var_map st) increment = Inr i \<and>
           emitted = do_indent (indent st) @ ''for ('' @ v @ ''='' @ s @ ''; '' @ v @ ''<'' @ e @
                  ''; '' @ v @ ''+='' @ i @ '')\<newline>'' @ do_indent (indent st) @ ''{\<newline>'' @ rest"
      by (rule visit_For_header [rotated])
  qed
  show ?thesis
    by (intro conjI) (rule 1, rule 2, rule 3)
qed

theorem For_Parallel_Reduction_as_Serial_witness:
  "visit sample_printer sample_vars
     (For (Var 0) (Var 0) (Var 0) (Var 0) Parallel 4 (StmtNode ''s'' [Var 0])) sample_state =
   Inr (''  for (a=a; a<a; a+=a)\<newline>  {\<newline>        s(a);  }\<newline>'', sample_state)
   \<and> visit sample_printer sample_vars
     (For (Var 0) (Var 0) (Var 0) (Var 0) Reduction 4 (StmtNode ''s'' [Var 0])) sample_state =
   Inr (''  for (a=a; a<a; a+=a)\<newline>  {\<newline>        s(a);  }\<newline>'', sample_state)"
proof -
  have serial: "visit sample_printer sample_vars
      (For (Var 0) (Var 0) (Var 0) (Var 0) Serial 4 (StmtNode ''s'' [Var 0])) sample_state =
      Inr (''  for (a=a; a<a; a+=a)\<newline>  {\<newline>        s(a);  }\<newline>'', sample_state)"
    by (simp add: eval_simps)
  note same = For_Parallel_Reduction_as_Serial [of sample_printer sample_vars "Var 0" "Var 0"
      "Var 0" "Var 0" 4 "StmtNode ''s'' [Var 0]" sample_state]
  show ?thesis
    unfolding same [THEN conjunct1] same [THEN conjunct2, THEN conjunct1] serial
    by simp
qed

end
